theory Spec2Isabelle
  imports Complex_Main "HOL-Library.Log_Nat"
begin

section \<open>The expense tracker's settlement engine\<close>

text \<open>
  The two read-only routes of \<^verbatim>\<open>backend/src/index.ts\<close>, \<^verbatim>\<open>GET /balances\<close> and
  \<^verbatim>\<open>GET /settlements\<close>, work on one snapshot loaded from the store: every person with
  the expenses the person paid and the person's split rows, each split row carrying its
  expense together with all split rows of that expense.

  Numbers: the store holds decimals, here rationals (\<^typ>\<open>rat\<close>). The source converts
  every stored decimal with \<^verbatim>\<open>toNumber()\<close> and computes on JavaScript numbers, that is
  in binary64. The theory has two layers:
  \<^item> the \<^emph>\<open>exact layer\<close> computes with the mathematical sums, quotients and
    comparisons, the literal \<^verbatim>\<open>0.01\<close> being \<open>1/100\<close>; it carries the properties that
    do not hang on the rounding of a sum;
  \<^item> the \<^emph>\<open>binary64 layer\<close> (names ending in \<open>64\<close>) rounds the result of every
    conversion and every operation to the nearest binary64 number, as the source does; it
    carries the properties that do.
  Both layers share the data, the order of the steps and the control flow.
\<close>

subsection \<open>The snapshot\<close>

datatype split_type = Equal | Percentage | Exact

text \<open>A row of \<^verbatim>\<open>expense.splits\<close> (\<^verbatim>\<open>include: { splits: true }\<close>).\<close>

record split_row =
  r_splitType :: split_type
  r_value :: rat

text \<open>\<^verbatim>\<open>split.expense\<close>: the expense of a split row, with all its split rows.\<close>

record expense =
  e_id :: int
  e_amount :: rat
  e_splits :: "split_row list"

text \<open>A row of \<^verbatim>\<open>person.splits\<close>.\<close>

record person_split =
  s_splitType :: split_type
  s_value :: rat
  s_expense :: expense

text \<open>
  A person of the snapshot; of each paid expense the routes read the amount only, so
  \<open>p_paid\<close> lists the amounts of \<^verbatim>\<open>person.paid\<close>.
\<close>

record person =
  p_name :: string
  p_paid :: "rat list"
  p_splits :: "person_split list"

subsection \<open>Rounding to two decimals\<close>

text \<open>
  \<^verbatim>\<open>+x.toFixed(2)\<close>: \<^verbatim>\<open>toFixed\<close> takes the integer \<open>n\<close> with \<open>n / 100\<close> nearest to
  \<open>x\<close>, the larger one on a tie, after taking the sign off a negative \<open>x\<close>; the unary
  plus reads the digits back as a number.
\<close>

definition round2 :: "rat \<Rightarrow> rat" where
  "round2 x =
     (if x < 0 then - (of_int \<lfloor>(- x) * 100 + 1 / 2\<rfloor> / 100)
      else of_int \<lfloor>x * 100 + 1 / 2\<rfloor> / 100)"

subsection \<open>Validation of the splits\<close>

datatype validation_error =
    InvalidExact int rat rat
  | InvalidPercentage int rat

text \<open>
  \<^verbatim>\<open>expense.splits.reduce((sum, s) => sum + s.value.toNumber(), 0)\<close>
\<close>

definition totalSplit :: "expense \<Rightarrow> rat" where
  "totalSplit expense = foldl (\<lambda>sum s. sum + r_value s) 0 (e_splits expense)"

text \<open>
  The body of the inner validation loop: the check of one split row of one person, first
  the block for \<^verbatim>\<open>"exact"\<close>, then the block for \<^verbatim>\<open>"percentage"\<close>. The result
  \<open>Some e\<close> is the early \<^verbatim>\<open>return res.status(400)\<close>, whose message prints the
  expense id, the sum and (for exact splits) the amount.
\<close>

definition check_split :: "person_split \<Rightarrow> validation_error option" where
  "check_split split =
     (let expense = s_expense split; splitType = s_splitType split in
      if splitType = Exact \<and> totalSplit expense > e_amount expense + 1 / 100
      then Some (InvalidExact (e_id expense) (totalSplit expense) (e_amount expense))
      else if splitType = Percentage \<and> totalSplit expense > 10001 / 100
      then Some (InvalidPercentage (e_id expense) (totalSplit expense))
      else None)"

fun validate_splits :: "person_split list \<Rightarrow> validation_error option" where
  "validate_splits [] = None"
| "validate_splits (split # rest) =
     (case check_split split of
        Some e \<Rightarrow> Some e
      | None \<Rightarrow> validate_splits rest)"

fun validate :: "person list \<Rightarrow> validation_error option" where
  "validate [] = None"
| "validate (person # rest) =
     (case validate_splits (p_splits person) of
        Some e \<Rightarrow> Some e
      | None \<Rightarrow> validate rest)"

subsection \<open>Shares and balances\<close>

text \<open>
  The body of the \<^verbatim>\<open>owes\<close> reduction: the share of one split row.
  \<^verbatim>\<open>split.expense.splits.length || 1\<close> is 1 for an expense without split rows.
\<close>

definition numPeople :: "person_split \<Rightarrow> nat" where
  "numPeople split =
     (if length (e_splits (s_expense split)) = 0 then 1
      else length (e_splits (s_expense split)))"

definition share :: "person_split \<Rightarrow> rat" where
  "share split =
     (let total = e_amount (s_expense split) in
      if s_splitType split = Equal then total / of_nat (numPeople split)
      else if s_splitType split = Percentage then (s_value split / 100) * total
      else if s_splitType split = Exact then s_value split
      else 0)"

definition paid_raw :: "person \<Rightarrow> rat" where
  "paid_raw person = foldl (\<lambda>sum amount. sum + amount) 0 (p_paid person)"

definition owes_raw :: "person \<Rightarrow> rat" where
  "owes_raw person = foldl (\<lambda>sum split. sum + share split) 0 (p_splits person)"

text \<open>An element of \<^verbatim>\<open>balances\<close>.\<close>

record balance_row =
  name :: string
  paid :: rat
  owes :: rat
  balance :: rat

definition balance_of :: "person \<Rightarrow> balance_row" where
  "balance_of person =
     \<lparr> name = p_name person,
       paid = round2 (paid_raw person),
       owes = round2 (owes_raw person),
       balance = round2 (paid_raw person - owes_raw person) \<rparr>"

definition computeBalances :: "person list \<Rightarrow> balance_row list" where
  "computeBalances people = map balance_of people"

subsection \<open>The settlement loop\<close>

text \<open>
  \<^verbatim>\<open>creditors\<close> and \<^verbatim>\<open>debtors\<close> hold the objects of \<^verbatim>\<open>balances\<close> themselves, so
  the loop's updates of \<^verbatim>\<open>debtor.balance\<close> and \<^verbatim>\<open>creditor.balance\<close> change the
  elements of \<^verbatim>\<open>balances\<close>. The model keeps \<^verbatim>\<open>balances\<close> as the store and the two
  arrays as lists of positions in it. \<^verbatim>\<open>Array.prototype.sort\<close> is stable, as is
  \<^const>\<open>sort_key\<close>.
\<close>

definition creditors :: "balance_row list \<Rightarrow> nat list" where
  "creditors balances =
     sort_key (\<lambda>k. - balance (balances ! k))
       (filter (\<lambda>k. balance (balances ! k) > 0) [0..<length balances])"

definition debtors :: "balance_row list \<Rightarrow> nat list" where
  "debtors balances =
     sort_key (\<lambda>k. balance (balances ! k))
       (filter (\<lambda>k. balance (balances ! k) < 0) [0..<length balances])"

record transfer =
  t_from :: string
  t_to :: string
  t_amount :: rat

record settle_state =
  st_i :: nat
  st_j :: nat
  st_balances :: "balance_row list"
  st_settlements :: "transfer list"

definition add_balance :: "nat \<Rightarrow> rat \<Rightarrow> balance_row list \<Rightarrow> balance_row list" where
  "add_balance k amount balances =
     balances[k := (balances ! k)\<lparr> balance := balance (balances ! k) + amount \<rparr>]"

text \<open>One pass through the body of the \<^verbatim>\<open>while\<close> loop.\<close>

definition settle_step :: "nat list \<Rightarrow> nat list \<Rightarrow> settle_state \<Rightarrow> settle_state" where
  "settle_step ds cs st =
     (let debtor = ds ! st_i st;
          creditor = cs ! st_j st;
          bal = st_balances st;
          amount = min (- balance (bal ! debtor)) (balance (bal ! creditor));
          bal' = (if amount > 1 / 100
                  then add_balance creditor (- amount) (add_balance debtor amount bal)
                  else bal);
          settlements' = (if amount > 1 / 100
                  then st_settlements st @
                       [\<lparr> t_from = name (bal ! debtor), t_to = name (bal ! creditor),
                          t_amount = round2 amount \<rparr>]
                  else st_settlements st)
      in \<lparr> st_i = (if \<bar>balance (bal' ! debtor)\<bar> < 1 / 100 then st_i st + 1 else st_i st),
           st_j = (if \<bar>balance (bal' ! creditor)\<bar> < 1 / 100 then st_j st + 1 else st_j st),
           st_balances = bal',
           st_settlements = settlements' \<rparr>)"

text \<open>
  The \<^verbatim>\<open>while (i < debtors.length && j < creditors.length)\<close> loop; \<open>None\<close> is a loop
  that never ends.
\<close>

partial_function (option) settle_loop ::
  "nat list \<Rightarrow> nat list \<Rightarrow> settle_state \<Rightarrow> settle_state option" where
  "settle_loop ds cs st =
     (if st_i st < length ds \<and> st_j st < length cs
      then settle_loop ds cs (settle_step ds cs st)
      else Some st)"

text \<open>
  The planner on the array \<^verbatim>\<open>balances\<close>: the array after the loop and the
  \<^verbatim>\<open>settlements\<close> it collected.
\<close>

definition plan :: "balance_row list \<Rightarrow> (balance_row list \<times> transfer list) option" where
  "plan balances =
     map_option (\<lambda>st. (st_balances st, st_settlements st))
       (settle_loop (debtors balances) (creditors balances)
          \<lparr> st_i = 0, st_j = 0, st_balances = balances, st_settlements = [] \<rparr>)"

text \<open>
  What a person, known by name, sends and receives according to a list of settlements.
\<close>

definition outgoing :: "string \<Rightarrow> transfer list \<Rightarrow> rat" where
  "outgoing n ts = sum_list (map t_amount (filter (\<lambda>t. t_from t = n) ts))"

definition incoming :: "string \<Rightarrow> transfer list \<Rightarrow> rat" where
  "incoming n ts = sum_list (map t_amount (filter (\<lambda>t. t_to t = n) ts))"

subsection \<open>The stored expenses behind a snapshot\<close>








subsection \<open>The two routes\<close>

text \<open>
  \<open>Status500\<close> is the \<^verbatim>\<open>catch\<close> branch of a route. In the part modelled here, after
  the snapshot is loaded, nothing throws, so no route below produces it.
\<close>

datatype 'a response = Status200 'a | Status400 validation_error | Status500


text \<open>\<open>None\<close>: the route never answers.\<close>

definition settlements_route ::
  "person list \<Rightarrow> (balance_row list \<times> transfer list) response option" where
  "settlements_route people =
     (case validate people of
        Some e \<Rightarrow> Some (Status400 e)
      | None \<Rightarrow> map_option Status200 (plan (computeBalances people)))"

section \<open>The binary64 layer\<close>

subsection \<open>Rounding to binary64\<close>

text \<open>
  A JavaScript number is a binary64 value; the finite ones are rationals. Every
  operation of the source returns the binary64 number nearest to the exact result, the
  one with the even significand on a tie. \<open>double x\<close> is that number: for \<open>x\<close> with
  \<^verbatim>\<open>2^e <= |x| < 2^(e+1)\<close> it is the multiple of \<^verbatim>\<open>2^(e-52)\<close> nearest to \<open>x\<close>,
  where \<open>e\<close> is taken as -1022 for the smaller, subnormal numbers. Overflow to
  \<^verbatim>\<open>Infinity\<close>, beyond about \<^verbatim>\<open>1.8e308\<close>, is outside the model.
\<close>

definition rne :: "rat \<Rightarrow> int" where
  "rne r =
     (let f = \<lfloor>r\<rfloor>; d = r - of_int f in
      if d < 1 / 2 then f
      else if 1 / 2 < d then f + 1
      else if even f then f else f + 1)"

definition floor_log2 :: "rat \<Rightarrow> int" where
  "floor_log2 x = (if 1 \<le> x then bitlen \<lfloor>x\<rfloor> - 1 else - bitlen (\<lceil>1 / x\<rceil> - 1))"

definition double :: "rat \<Rightarrow> rat" where
  "double x =
     (if x = 0 then 0
      else let e = max (floor_log2 \<bar>x\<bar>) (- 1022) in
           if 52 \<le> e then of_int (rne (x / 2 ^ nat (e - 52))) * 2 ^ nat (e - 52)
           else of_int (rne (x * 2 ^ nat (52 - e))) / 2 ^ nat (52 - e))"

text \<open>The operators \<^verbatim>\<open>+\<close>, \<^verbatim>\<open>-\<close>, \<^verbatim>\<open>*\<close>, \<^verbatim>\<open>/\<close> on numbers.\<close>

definition fadd :: "rat \<Rightarrow> rat \<Rightarrow> rat" where
  "fadd x y = double (x + y)"

definition fsub :: "rat \<Rightarrow> rat \<Rightarrow> rat" where
  "fsub x y = double (x - y)"

definition fmul :: "rat \<Rightarrow> rat \<Rightarrow> rat" where
  "fmul x y = double (x * y)"

definition fdiv :: "rat \<Rightarrow> rat \<Rightarrow> rat" where
  "fdiv x y = double (x / y)"

text \<open>
  \<^verbatim>\<open>d.toNumber()\<close> on a stored decimal, and \<^verbatim>\<open>+x.toFixed(2)\<close> on a number:
  \<^verbatim>\<open>toFixed\<close> rounds the exact value of \<open>x\<close> to two decimals (\<^const>\<open>round2\<close>), and
  the unary plus reads the digits back as the nearest number.
\<close>

definition toNumber :: "rat \<Rightarrow> rat" where
  "toNumber d = double d"

definition toFixed2 :: "rat \<Rightarrow> rat" where
  "toFixed2 x = double (round2 x)"

subsection \<open>Validation, shares and balances in binary64\<close>

definition totalSplit64 :: "expense \<Rightarrow> rat" where
  "totalSplit64 expense =
     foldl (\<lambda>sum s. fadd sum (toNumber (r_value s))) 0 (e_splits expense)"

definition check_split64 :: "person_split \<Rightarrow> validation_error option" where
  "check_split64 split =
     (let expense = s_expense split; splitType = s_splitType split in
      if splitType = Exact
         \<and> totalSplit64 expense > fadd (toNumber (e_amount expense)) (double (1 / 100))
      then Some (InvalidExact (e_id expense) (totalSplit64 expense) (toNumber (e_amount expense)))
      else if splitType = Percentage \<and> totalSplit64 expense > double (10001 / 100)
      then Some (InvalidPercentage (e_id expense) (totalSplit64 expense))
      else None)"

fun validate_splits64 :: "person_split list \<Rightarrow> validation_error option" where
  "validate_splits64 [] = None"
| "validate_splits64 (split # rest) =
     (case check_split64 split of
        Some e \<Rightarrow> Some e
      | None \<Rightarrow> validate_splits64 rest)"

fun validate64 :: "person list \<Rightarrow> validation_error option" where
  "validate64 [] = None"
| "validate64 (person # rest) =
     (case validate_splits64 (p_splits person) of
        Some e \<Rightarrow> Some e
      | None \<Rightarrow> validate64 rest)"

definition share64 :: "person_split \<Rightarrow> rat" where
  "share64 split =
     (let total = toNumber (e_amount (s_expense split)) in
      if s_splitType split = Equal then fdiv total (of_nat (numPeople split))
      else if s_splitType split = Percentage
      then fmul (fdiv (toNumber (s_value split)) 100) total
      else if s_splitType split = Exact then toNumber (s_value split)
      else 0)"

definition paid_raw64 :: "person \<Rightarrow> rat" where
  "paid_raw64 person = foldl (\<lambda>sum amount. fadd sum (toNumber amount)) 0 (p_paid person)"

definition owes_raw64 :: "person \<Rightarrow> rat" where
  "owes_raw64 person = foldl (\<lambda>sum split. fadd sum (share64 split)) 0 (p_splits person)"

definition balance_of64 :: "person \<Rightarrow> balance_row" where
  "balance_of64 person =
     \<lparr> name = p_name person,
       paid = toFixed2 (paid_raw64 person),
       owes = toFixed2 (owes_raw64 person),
       balance = toFixed2 (fsub (paid_raw64 person) (owes_raw64 person)) \<rparr>"

definition computeBalances64 :: "person list \<Rightarrow> balance_row list" where
  "computeBalances64 people = map balance_of64 people"

subsection \<open>The settlement loop in binary64\<close>

text \<open>\<^verbatim>\<open>row.balance += amount\<close> and \<^verbatim>\<open>row.balance -= amount\<close> on row \<open>k\<close>.\<close>

definition add_balance64 :: "nat \<Rightarrow> rat \<Rightarrow> balance_row list \<Rightarrow> balance_row list" where
  "add_balance64 k amount balances =
     balances[k := (balances ! k)\<lparr> balance := fadd (balance (balances ! k)) amount \<rparr>]"

definition sub_balance64 :: "nat \<Rightarrow> rat \<Rightarrow> balance_row list \<Rightarrow> balance_row list" where
  "sub_balance64 k amount balances =
     balances[k := (balances ! k)\<lparr> balance := fsub (balance (balances ! k)) amount \<rparr>]"

text \<open>
  The value of \<^verbatim>\<open>amount\<close> in the pass that starts in a state: \<^verbatim>\<open>Math.min\<close> and the
  unary minus are exact.
\<close>

definition amount64 :: "nat list \<Rightarrow> nat list \<Rightarrow> settle_state \<Rightarrow> rat" where
  "amount64 ds cs st =
     min (- balance (st_balances st ! (ds ! st_i st))) (balance (st_balances st ! (cs ! st_j st)))"

definition settle_step64 :: "nat list \<Rightarrow> nat list \<Rightarrow> settle_state \<Rightarrow> settle_state" where
  "settle_step64 ds cs st =
     (let debtor = ds ! st_i st;
          creditor = cs ! st_j st;
          bal = st_balances st;
          amount = amount64 ds cs st;
          bal' = (if amount > double (1 / 100)
                  then sub_balance64 creditor amount (add_balance64 debtor amount bal)
                  else bal);
          settlements' = (if amount > double (1 / 100)
                  then st_settlements st @
                       [\<lparr> t_from = name (bal ! debtor), t_to = name (bal ! creditor),
                          t_amount = toFixed2 amount \<rparr>]
                  else st_settlements st)
      in \<lparr> st_i = (if \<bar>balance (bal' ! debtor)\<bar> < double (1 / 100)
                   then st_i st + 1 else st_i st),
           st_j = (if \<bar>balance (bal' ! creditor)\<bar> < double (1 / 100)
                   then st_j st + 1 else st_j st),
           st_balances = bal',
           st_settlements = settlements' \<rparr>)"

partial_function (option) settle_loop64 ::
  "nat list \<Rightarrow> nat list \<Rightarrow> settle_state \<Rightarrow> settle_state option" where
  "settle_loop64 ds cs st =
     (if st_i st < length ds \<and> st_j st < length cs
      then settle_loop64 ds cs (settle_step64 ds cs st)
      else Some st)"

text \<open>
  The state after at most \<open>n\<close> passes of the loop, so that what the loop has done so far
  can be stated also where it never ends.
\<close>

fun settle_run64 :: "nat \<Rightarrow> nat list \<Rightarrow> nat list \<Rightarrow> settle_state \<Rightarrow> settle_state" where
  "settle_run64 0 ds cs st = st"
| "settle_run64 (Suc n) ds cs st =
     (if st_i st < length ds \<and> st_j st < length cs
      then settle_run64 n ds cs (settle_step64 ds cs st)
      else st)"

text \<open>
  A pass that changes nothing: the loop goes on, nothing is transferred and neither
  cursor moves.
\<close>

definition stuck64 :: "nat list \<Rightarrow> nat list \<Rightarrow> settle_state \<Rightarrow> bool" where
  "stuck64 ds cs st \<longleftrightarrow>
     st_i st < length ds \<and> st_j st < length cs
     \<and> \<not> amount64 ds cs st > double (1 / 100)
     \<and> \<not> \<bar>balance (st_balances st ! (ds ! st_i st))\<bar> < double (1 / 100)
     \<and> \<not> \<bar>balance (st_balances st ! (cs ! st_j st))\<bar> < double (1 / 100)"

definition start :: "balance_row list \<Rightarrow> settle_state" where
  "start balances = \<lparr> st_i = 0, st_j = 0, st_balances = balances, st_settlements = [] \<rparr>"

definition plan64 :: "balance_row list \<Rightarrow> (balance_row list \<times> transfer list) option" where
  "plan64 balances =
     map_option (\<lambda>st. (st_balances st, st_settlements st))
       (settle_loop64 (debtors balances) (creditors balances) (start balances))"

text \<open>
  The balance of the person \<open>n\<close> after a settlement \<open>t\<close> whose \<^verbatim>\<open>amount\<close> was \<open>a\<close>
  before it was rounded for the response; and after a list of them.
\<close>

fun apply_raw :: "string \<Rightarrow> rat \<Rightarrow> transfer \<times> rat \<Rightarrow> rat" where
  "apply_raw n b (t, a) =
     (if t_from t = n then fadd b a else if t_to t = n then fsub b a else b)"

definition residual :: "string \<Rightarrow> rat \<Rightarrow> transfer list \<Rightarrow> rat list \<Rightarrow> rat" where
  "residual n b ts as = foldl (apply_raw n) b (zip ts as)"

text \<open>
  Two invariants of the loop. The first: the rows keep their names, paid and owes
  figures, and every balance is the initial one with the amounts of the recorded
  settlements applied, each settlement showing its amount rounded to two decimals. The
  second: the rows behind the two cursors have a balance below 0.01 in magnitude, and the
  rows that are neither debtor nor creditor keep their balance.
\<close>

definition accounted64 :: "balance_row list \<Rightarrow> settle_state \<Rightarrow> bool" where
  "accounted64 bal0 st \<longleftrightarrow>
     length (st_balances st) = length bal0
     \<and> (\<forall>k<length bal0.
          name (st_balances st ! k) = name (bal0 ! k)
          \<and> paid (st_balances st ! k) = paid (bal0 ! k)
          \<and> owes (st_balances st ! k) = owes (bal0 ! k))
     \<and> (\<exists>as. length as = length (st_settlements st)
          \<and> (\<forall>i<length as. t_amount (st_settlements st ! i) = toFixed2 (as ! i)
                \<and> double (1 / 100) < as ! i)
          \<and> (\<forall>k<length bal0.
                balance (st_balances st ! k)
                  = residual (name (bal0 ! k)) (balance (bal0 ! k)) (st_settlements st) as))"

definition passed64 :: "nat list \<Rightarrow> nat list \<Rightarrow> balance_row list \<Rightarrow> settle_state \<Rightarrow> bool" where
  "passed64 ds cs bal0 st \<longleftrightarrow>
     length (st_balances st) = length bal0
     \<and> (\<forall>m<st_i st. m < length ds \<longrightarrow>
           \<bar>balance (st_balances st ! (ds ! m))\<bar> < double (1 / 100))
     \<and> (\<forall>m<st_j st. m < length cs \<longrightarrow>
           \<bar>balance (st_balances st ! (cs ! m))\<bar> < double (1 / 100))
     \<and> (\<forall>k<length bal0. k \<notin> set ds \<and> k \<notin> set cs \<longrightarrow>
           balance (st_balances st ! k) = balance (bal0 ! k))"

subsection \<open>The two routes in binary64\<close>

definition balances_route64 :: "person list \<Rightarrow> balance_row list response" where
  "balances_route64 people =
     (case validate64 people of
        Some e \<Rightarrow> Status400 e
      | None \<Rightarrow> Status200 (computeBalances64 people))"

definition settlements_route64 ::
  "person list \<Rightarrow> (balance_row list \<times> transfer list) response option" where
  "settlements_route64 people =
     (case validate64 people of
        Some e \<Rightarrow> Some (Status400 e)
      | None \<Rightarrow> map_option Status200 (plan64 (computeBalances64 people)))"

section \<open>Example snapshots\<close>

definition stuck_expense :: expense where
  "stuck_expense =
     \<lparr> e_id = 1, e_amount = 2 / 100,
       e_splits = [\<lparr> r_splitType = Equal, r_value = 0 \<rparr>, \<lparr> r_splitType = Equal, r_value = 0 \<rparr>] \<rparr>"

definition stuck_people :: "person list" where
  "stuck_people =
     [\<lparr> p_name = ''A'', p_paid = [2 / 100],
        p_splits = [\<lparr> s_splitType = Equal, s_value = 0, s_expense = stuck_expense \<rparr>] \<rparr>,
      \<lparr> p_name = ''B'', p_paid = [],
        p_splits = [\<lparr> s_splitType = Equal, s_value = 0, s_expense = stuck_expense \<rparr>] \<rparr>]"

definition pct_bad_expense :: expense where
  "pct_bad_expense =
     \<lparr> e_id = 3, e_amount = 200,
       e_splits = [\<lparr> r_splitType = Percentage, r_value = 50 \<rparr>,
                   \<lparr> r_splitType = Percentage, r_value = 60 \<rparr>] \<rparr>"

definition pct_bad_people :: "person list" where
  "pct_bad_people =
     [\<lparr> p_name = ''A'', p_paid = [200],
        p_splits = [\<lparr> s_splitType = Percentage, s_value = 50, s_expense = pct_bad_expense \<rparr>] \<rparr>,
      \<lparr> p_name = ''B'', p_paid = [],
        p_splits = [\<lparr> s_splitType = Percentage, s_value = 60, s_expense = pct_bad_expense \<rparr>] \<rparr>]"



definition exact_expense :: expense where
  "exact_expense =
     \<lparr> e_id = 1, e_amount = 100,
       e_splits = [\<lparr> r_splitType = Exact, r_value = 40 \<rparr>, \<lparr> r_splitType = Exact, r_value = 70 \<rparr>] \<rparr>"

definition exact_people :: "person list" where
  "exact_people =
     [\<lparr> p_name = ''A'', p_paid = [100],
        p_splits = [\<lparr> s_splitType = Exact, s_value = 40, s_expense = exact_expense \<rparr>] \<rparr>,
      \<lparr> p_name = ''B'', p_paid = [],
        p_splits = [\<lparr> s_splitType = Exact, s_value = 70, s_expense = exact_expense \<rparr>] \<rparr>]"

definition exact_ok_expense :: expense where
  "exact_ok_expense =
     \<lparr> e_id = 2, e_amount = 100,
       e_splits = [\<lparr> r_splitType = Exact, r_value = 40 \<rparr>, \<lparr> r_splitType = Exact, r_value = 60 \<rparr>] \<rparr>"

definition exact_ok_people :: "person list" where
  "exact_ok_people =
     [\<lparr> p_name = ''A'', p_paid = [100],
        p_splits = [\<lparr> s_splitType = Exact, s_value = 40, s_expense = exact_ok_expense \<rparr>] \<rparr>,
      \<lparr> p_name = ''B'', p_paid = [],
        p_splits = [\<lparr> s_splitType = Exact, s_value = 60, s_expense = exact_ok_expense \<rparr>] \<rparr>]"

definition edge_exact_expense :: expense where
  "edge_exact_expense =
     \<lparr> e_id = 9, e_amount = 9 / 100, e_splits = [\<lparr> r_splitType = Exact, r_value = 10 / 100 \<rparr>] \<rparr>"

definition edge_exact_people :: "person list" where
  "edge_exact_people =
     [\<lparr> p_name = ''A'', p_paid = [9 / 100], p_splits = [] \<rparr>,
      \<lparr> p_name = ''B'', p_paid = [],
        p_splits = [\<lparr> s_splitType = Exact, s_value = 10 / 100,
                      s_expense = edge_exact_expense \<rparr>] \<rparr>]"

definition pct_ok_expense :: expense where
  "pct_ok_expense =
     \<lparr> e_id = 4, e_amount = 200,
       e_splits = [\<lparr> r_splitType = Percentage, r_value = 50 \<rparr>,
                   \<lparr> r_splitType = Percentage, r_value = 50 \<rparr>] \<rparr>"

definition pct_ok_people :: "person list" where
  "pct_ok_people =
     [\<lparr> p_name = ''A'', p_paid = [200],
        p_splits = [\<lparr> s_splitType = Percentage, s_value = 50, s_expense = pct_ok_expense \<rparr>] \<rparr>,
      \<lparr> p_name = ''B'', p_paid = [],
        p_splits = [\<lparr> s_splitType = Percentage, s_value = 50, s_expense = pct_ok_expense \<rparr>] \<rparr>]"

definition edge_pct_expense :: expense where
  "edge_pct_expense =
     \<lparr> e_id = 10, e_amount = 100,
       e_splits = [\<lparr> r_splitType = Percentage, r_value = 2 / 100 \<rparr>,
                   \<lparr> r_splitType = Percentage, r_value = 3206 / 100 \<rparr>,
                   \<lparr> r_splitType = Percentage, r_value = 6793 / 100 \<rparr>] \<rparr>"

definition edge_pct_people :: "person list" where
  "edge_pct_people =
     [\<lparr> p_name = ''A'', p_paid = [100],
        p_splits = [\<lparr> s_splitType = Percentage, s_value = 2 / 100,
                      s_expense = edge_pct_expense \<rparr>] \<rparr>,
      \<lparr> p_name = ''B'', p_paid = [],
        p_splits = [\<lparr> s_splitType = Percentage, s_value = 3206 / 100,
                      s_expense = edge_pct_expense \<rparr>] \<rparr>,
      \<lparr> p_name = ''C'', p_paid = [],
        p_splits = [\<lparr> s_splitType = Percentage, s_value = 6793 / 100,
                      s_expense = edge_pct_expense \<rparr>] \<rparr>]"

definition quarter_expense :: expense where
  "quarter_expense =
     \<lparr> e_id = 5, e_amount = 1 / 4,
       e_splits = [\<lparr> r_splitType = Equal, r_value = 0 \<rparr>, \<lparr> r_splitType = Equal, r_value = 0 \<rparr>] \<rparr>"

definition quarter_people :: "person list" where
  "quarter_people =
     [\<lparr> p_name = ''A'', p_paid = [1 / 4],
        p_splits = [\<lparr> s_splitType = Equal, s_value = 0, s_expense = quarter_expense \<rparr>] \<rparr>,
      \<lparr> p_name = ''B'', p_paid = [],
        p_splits = [\<lparr> s_splitType = Equal, s_value = 0, s_expense = quarter_expense \<rparr>] \<rparr>]"

definition half_expense :: expense where
  "half_expense =
     \<lparr> e_id = 11, e_amount = 5573 / 100,
       e_splits = [\<lparr> r_splitType = Equal, r_value = 0 \<rparr>, \<lparr> r_splitType = Equal, r_value = 0 \<rparr>] \<rparr>"

definition half_people :: "person list" where
  "half_people =
     [\<lparr> p_name = ''A'', p_paid = [5573 / 100],
        p_splits = [\<lparr> s_splitType = Equal, s_value = 0, s_expense = half_expense \<rparr>] \<rparr>,
      \<lparr> p_name = ''B'', p_paid = [],
        p_splits = [\<lparr> s_splitType = Equal, s_value = 0, s_expense = half_expense \<rparr>] \<rparr>]"

definition rent_expense :: expense where
  "rent_expense =
     \<lparr> e_id = 6, e_amount = 300,
       e_splits = [\<lparr> r_splitType = Equal, r_value = 0 \<rparr>, \<lparr> r_splitType = Equal, r_value = 0 \<rparr>,
                   \<lparr> r_splitType = Equal, r_value = 0 \<rparr>] \<rparr>"

definition rent_people :: "person list" where
  "rent_people =
     [\<lparr> p_name = ''A'', p_paid = [300],
        p_splits = [\<lparr> s_splitType = Equal, s_value = 0, s_expense = rent_expense \<rparr>] \<rparr>,
      \<lparr> p_name = ''B'', p_paid = [],
        p_splits = [\<lparr> s_splitType = Equal, s_value = 0, s_expense = rent_expense \<rparr>] \<rparr>,
      \<lparr> p_name = ''C'', p_paid = [],
        p_splits = [\<lparr> s_splitType = Equal, s_value = 0, s_expense = rent_expense \<rparr>] \<rparr>]"

definition rent_balances :: "balance_row list" where
  "rent_balances =
     [\<lparr> name = ''A'', paid = 300, owes = 100, balance = 200 \<rparr>,
      \<lparr> name = ''B'', paid = 0, owes = 100, balance = - 100 \<rparr>,
      \<lparr> name = ''C'', paid = 0, owes = 100, balance = - 100 \<rparr>]"

definition rent_summary :: "balance_row list" where
  "rent_summary =
     [\<lparr> name = ''A'', paid = 300, owes = 100, balance = 0 \<rparr>,
      \<lparr> name = ''B'', paid = 0, owes = 100, balance = 0 \<rparr>,
      \<lparr> name = ''C'', paid = 0, owes = 100, balance = 0 \<rparr>]"

definition rent_settlements :: "transfer list" where
  "rent_settlements =
     [\<lparr> t_from = ''B'', t_to = ''A'', t_amount = 100 \<rparr>,
      \<lparr> t_from = ''C'', t_to = ''A'', t_amount = 100 \<rparr>]"

text \<open>An expense of 0.03 paid by A, of which B owes 0.02 and C owes 0.01.\<close>

definition three_expense :: expense where
  "three_expense =
     \<lparr> e_id = 12, e_amount = 3 / 100,
       e_splits = [\<lparr> r_splitType = Exact, r_value = 2 / 100 \<rparr>,
                   \<lparr> r_splitType = Exact, r_value = 1 / 100 \<rparr>] \<rparr>"

definition three_people :: "person list" where
  "three_people =
     [\<lparr> p_name = ''A'', p_paid = [3 / 100], p_splits = [] \<rparr>,
      \<lparr> p_name = ''B'', p_paid = [],
        p_splits = [\<lparr> s_splitType = Exact, s_value = 2 / 100, s_expense = three_expense \<rparr>] \<rparr>,
      \<lparr> p_name = ''C'', p_paid = [],
        p_splits = [\<lparr> s_splitType = Exact, s_value = 1 / 100, s_expense = three_expense \<rparr>] \<rparr>]"

definition three_balances :: "balance_row list" where
  "three_balances =
     [\<lparr> name = ''A'', paid = double (3 / 100), owes = 0, balance = double (3 / 100) \<rparr>,
      \<lparr> name = ''B'', paid = 0, owes = double (2 / 100), balance = - double (2 / 100) \<rparr>,
      \<lparr> name = ''C'', paid = 0, owes = double (1 / 100), balance = - double (1 / 100) \<rparr>]"

text \<open>
  An expense of 0.05 paid by A, of which B owes 0.04 and C owes 0.01, and an expense of
  0.01 paid by D, which C owes.
\<close>

definition four_expense1 :: expense where
  "four_expense1 =
     \<lparr> e_id = 13, e_amount = 5 / 100,
       e_splits = [\<lparr> r_splitType = Exact, r_value = 4 / 100 \<rparr>,
                   \<lparr> r_splitType = Exact, r_value = 1 / 100 \<rparr>] \<rparr>"

definition four_expense2 :: expense where
  "four_expense2 =
     \<lparr> e_id = 14, e_amount = 1 / 100, e_splits = [\<lparr> r_splitType = Exact, r_value = 1 / 100 \<rparr>] \<rparr>"

definition four_people :: "person list" where
  "four_people =
     [\<lparr> p_name = ''A'', p_paid = [5 / 100], p_splits = [] \<rparr>,
      \<lparr> p_name = ''B'', p_paid = [],
        p_splits = [\<lparr> s_splitType = Exact, s_value = 4 / 100, s_expense = four_expense1 \<rparr>] \<rparr>,
      \<lparr> p_name = ''C'', p_paid = [],
        p_splits = [\<lparr> s_splitType = Exact, s_value = 1 / 100, s_expense = four_expense1 \<rparr>,
                    \<lparr> s_splitType = Exact, s_value = 1 / 100, s_expense = four_expense2 \<rparr>] \<rparr>,
      \<lparr> p_name = ''D'', p_paid = [1 / 100], p_splits = [] \<rparr>]"

definition four_balances :: "balance_row list" where
  "four_balances =
     [\<lparr> name = ''A'', paid = double (5 / 100), owes = 0, balance = double (5 / 100) \<rparr>,
      \<lparr> name = ''B'', paid = 0, owes = double (4 / 100), balance = - double (4 / 100) \<rparr>,
      \<lparr> name = ''C'', paid = 0, owes = double (2 / 100), balance = - double (2 / 100) \<rparr>,
      \<lparr> name = ''D'', paid = double (1 / 100), owes = 0, balance = double (1 / 100) \<rparr>]"

definition four_summary :: "balance_row list" where
  "four_summary =
     [\<lparr> name = ''A'', paid = double (5 / 100), owes = 0, balance = 0 \<rparr>,
      \<lparr> name = ''B'', paid = 0, owes = double (4 / 100), balance = 0 \<rparr>,
      \<lparr> name = ''C'', paid = 0, owes = double (2 / 100),
         balance = - (2882303761517117 / 288230376151711744) \<rparr>,
      \<lparr> name = ''D'', paid = double (1 / 100), owes = 0, balance = double (1 / 100) \<rparr>]"

definition four_settlements :: "transfer list" where
  "four_settlements =
     [\<lparr> t_from = ''B'', t_to = ''A'', t_amount = double (4 / 100) \<rparr>,
      \<lparr> t_from = ''C'', t_to = ''A'', t_amount = double (1 / 100) \<rparr>]"

section \<open>Properties\<close>

subsection \<open>The exact layer\<close>

lemma floor_numeral_div_rat [simp]:
  "\<lfloor>(numeral a :: rat) / numeral b\<rfloor> = numeral a div numeral b"
  "\<lfloor>(1 :: rat) / numeral b\<rfloor> = 1 div numeral b"
  using floor_divide_of_int_eq [of "numeral a" "numeral b", where ?'a = rat]
    floor_divide_of_int_eq [of 1 "numeral b", where ?'a = rat]
  by simp_all











lemma settle_loop_stuck:
  assumes "st_i st < length ds" "st_j st < length cs" "settle_step ds cs st = st"
  shows "settle_loop ds cs st = None"
proof (cases "settle_loop ds cs st")
  case None
  then show ?thesis .
next
  case (Some st')
  have "\<not> (ds = ds \<and> cs = cs \<and> st = st)"
  proof (rule settle_loop.raw_induct
      [where P = "\<lambda>a b s s'. \<not> (a = ds \<and> b = cs \<and> s = st)", OF _ Some])
    fix loop a b s s'
    assume IH: "\<And>a b s s'. loop a b s = Some s' \<Longrightarrow> \<not> (a = ds \<and> b = cs \<and> s = st)"
      and body: "(if st_i s < length a \<and> st_j s < length b
                  then loop a b (settle_step a b s) else Some s) = Some s'"
    show "\<not> (a = ds \<and> b = cs \<and> s = st)"
    proof
      assume eq: "a = ds \<and> b = cs \<and> s = st"
      with body assms have "loop ds cs st = Some s'" by simp
      with IH show False by blast
    qed
  qed
  then show ?thesis by simp
qed

lemma stuck_balances:
  "computeBalances stuck_people =
     [\<lparr> name = ''A'', paid = 2 / 100, owes = 1 / 100, balance = 1 / 100 \<rparr>,
      \<lparr> name = ''B'', paid = 0, owes = 1 / 100, balance = - (1 / 100) \<rparr>]"
  by (simp add: computeBalances_def balance_of_def stuck_people_def stuck_expense_def
        paid_raw_def owes_raw_def share_def numPeople_def round2_def
        floor_numeral_div_rat)

lemma stuck_validate: "validate stuck_people = None"
  by (simp add: stuck_people_def check_split_def)

lemma stuck_debtors: "debtors (computeBalances stuck_people) = [1]"
  unfolding stuck_balances by (simp add: debtors_def upt_rec)

lemma stuck_creditors: "creditors (computeBalances stuck_people) = [0]"
  unfolding stuck_balances by (simp add: creditors_def upt_rec)

text \<open>
  Claim C4. The loop does not end on every input. A paid an expense of 0.02 that is split
  equally between A and B, so the balances are 0.01 for A and -0.01 for B; then
  \<^verbatim>\<open>amount\<close> is 0.01, which is not above 0.01, no settlement is recorded, and neither
  balance is below 0.01 in magnitude, so neither cursor moves: the settlements route
  never answers.
\<close>

theorem settlements_route_never_returns: "settlements_route stuck_people = None"
proof -
  let ?st = "\<lparr> st_i = 0, st_j = 0, st_balances = computeBalances stuck_people, st_settlements = [] \<rparr>"
  have "settle_step [1] [0] ?st = ?st"
    unfolding stuck_balances by (simp add: settle_step_def Let_def)
  then have "settle_loop [1] [0] ?st = None"
    by (intro settle_loop_stuck) simp_all
  then show ?thesis
    by (simp add: settlements_route_def stuck_validate plan_def stuck_debtors stuck_creditors)
qed




















subsection \<open>The nearest binary64 number\<close>

lemma bitlen_eqI:
  assumes "2 ^ n \<le> x" and "x < 2 ^ Suc n"
  shows "bitlen x = int n + 1"
proof (rule antisym)
  show "bitlen x \<le> int n + 1"
    using assms(2) by (simp add: bitlen_le_iff_power nat_add_distrib)
  show "int n + 1 \<le> bitlen x"
    using assms(1) by (simp add: bitlen_ge_iff_power nat_add_distrib)
qed

lemma floor_log2_ge1:
  assumes "2 ^ n \<le> y" and "y < 2 ^ Suc n"
  shows "floor_log2 y = int n"
proof -
  have "(1 :: rat) \<le> 2 ^ n" by simp
  with assms(1) have y1: "1 \<le> y" by linarith
  have "(2 :: int) ^ n \<le> \<lfloor>y\<rfloor>"
    using assms(1) by (simp add: le_floor_iff)
  moreover have "\<lfloor>y\<rfloor> < 2 ^ Suc n"
    using assms(2) by (simp add: floor_less_iff)
  ultimately have "bitlen \<lfloor>y\<rfloor> = int n + 1" by (rule bitlen_eqI)
  with y1 show ?thesis by (simp add: floor_log2_def)
qed

lemma floor_log2_lt1:
  assumes "1 \<le> y * 2 ^ Suc n" and "y * 2 ^ Suc n < 2"
  shows "floor_log2 y = - int (Suc n)"
proof -
  have p: "(0 :: rat) < 2 ^ Suc n" by simp
  have y0: "0 < y"
  proof (rule ccontr)
    assume "\<not> 0 < y"
    then have "y * 2 ^ Suc n \<le> 0" using p by (simp add: mult_le_0_iff)
    with assms(1) show False by linarith
  qed
  have "y < 2 / 2 ^ Suc n" using assms(2) p by (simp add: pos_less_divide_eq)
  also have "\<dots> \<le> 1" by simp
  finally have y1: "\<not> 1 \<le> y" by simp
  have up: "1 / y \<le> 2 ^ Suc n"
    using assms(1) y0 by (simp add: pos_divide_le_eq mult.commute)
  have lo: "2 ^ n < 1 / y"
    using assms(2) y0 by (simp add: pos_less_divide_eq mult.commute)
  have "\<lceil>1 / y\<rceil> \<le> 2 ^ Suc n" using up by (simp add: ceiling_le_iff)
  then have a: "\<lceil>1 / y\<rceil> - 1 < 2 ^ Suc n" by simp
  have "(2 :: int) ^ n < \<lceil>1 / y\<rceil>" using lo by (simp add: less_ceiling_iff)
  then have b: "2 ^ n \<le> \<lceil>1 / y\<rceil> - 1" by simp
  from b a have "bitlen (\<lceil>1 / y\<rceil> - 1) = int n + 1" by (rule bitlen_eqI)
  with y1 show ?thesis by (simp add: floor_log2_def)
qed

lemma rne_nearest:
  assumes "\<bar>r - of_int m\<bar> < 1 / 2 \<or> (\<bar>r - of_int m\<bar> = 1 / 2 \<and> even m)"
  shows "rne r = m"
proof (cases "of_int m \<le> r")
  case True
  with assms have "\<lfloor>r\<rfloor> = m" by (intro floor_unique) linarith+
  with assms True show ?thesis by (auto simp: rne_def Let_def)
next
  case False
  have "of_int m - 1 \<le> r" using assms by linarith
  then have a: "of_int (m - 1) \<le> r" by simp
  have b: "r < of_int (m - 1) + 1" using False by simp
  have f: "\<lfloor>r\<rfloor> = m - 1" using a b by (rule floor_unique)
  have "1 / 2 < r - (of_int m - 1) \<or> (r - (of_int m - 1) = 1 / 2 \<and> odd (m - 1))"
    using assms False by auto
  then have "1 / 2 < r - of_int (m - 1) \<or> (r - of_int (m - 1) = 1 / 2 \<and> odd (m - 1))"
    by simp
  with f show ?thesis by (auto simp: rne_def Let_def)
qed

lemma double_eqI:
  fixes m :: int and k :: nat
  assumes k: "k \<le> 1074"
    and lo: "2 ^ 52 \<le> \<bar>x\<bar> * 2 ^ k"
    and hi: "\<bar>x\<bar> * 2 ^ k < 2 ^ 53"
    and near: "\<bar>x * 2 ^ k - of_int m\<bar> < 1 / 2
               \<or> (\<bar>x * 2 ^ k - of_int m\<bar> = 1 / 2 \<and> even m)"
  shows "double x = of_int m / 2 ^ k"
proof -
  have x0: "x \<noteq> 0" using lo by auto
  have e: "floor_log2 \<bar>x\<bar> = 52 - int k"
  proof (cases "k \<le> 52")
    case True
    have "(2 :: rat) ^ 52 = 2 ^ (52 - k) * 2 ^ k" "(2 :: rat) ^ 53 = 2 ^ Suc (52 - k) * 2 ^ k"
      using True by (simp_all flip: power_add)
    with lo hi have "2 ^ (52 - k) * 2 ^ k \<le> \<bar>x\<bar> * 2 ^ k"
      "\<bar>x\<bar> * 2 ^ k < 2 ^ Suc (52 - k) * 2 ^ k"
      by (simp_all only:)
    then have "2 ^ (52 - k) \<le> \<bar>x\<bar>" "\<bar>x\<bar> < 2 ^ Suc (52 - k)"
      by (simp_all only: mult_le_cancel_right_pos mult_less_cancel_right_pos zero_less_power
            zero_less_numeral)
    then have "floor_log2 \<bar>x\<bar> = int (52 - k)" by (rule floor_log2_ge1)
    with True show ?thesis by simp
  next
    case False
    then obtain n where n: "k = 52 + Suc n" by (metis add_Suc_right less_imp_Suc_add not_le)
    have "\<bar>x\<bar> * 2 ^ k = (\<bar>x\<bar> * 2 ^ Suc n) * 2 ^ 52"
      unfolding n by (simp add: power_add)
    with lo hi have "1 * 2 ^ 52 \<le> (\<bar>x\<bar> * 2 ^ Suc n) * 2 ^ 52"
      "(\<bar>x\<bar> * 2 ^ Suc n) * 2 ^ 52 < 2 * (2 :: rat) ^ 52"
      by simp_all
    then have "1 \<le> \<bar>x\<bar> * 2 ^ Suc n" "\<bar>x\<bar> * 2 ^ Suc n < 2"
      by (simp_all only: mult_le_cancel_right_pos mult_less_cancel_right_pos zero_less_power
            zero_less_numeral)
    then have "floor_log2 \<bar>x\<bar> = - int (Suc n)" by (rule floor_log2_lt1)
    with n show ?thesis by simp
  qed
  show ?thesis
  proof (cases "k = 0")
    case True
    with e near x0 show ?thesis
      by (simp add: double_def Let_def rne_nearest [of x m])
  next
    case False
    with e k have "max (floor_log2 \<bar>x\<bar>) (- 1022) = 52 - int k" "\<not> 52 \<le> 52 - int k"
      "nat (52 - (52 - int k)) = k"
      by simp_all
    with near x0 show ?thesis
      by (simp add: double_def Let_def rne_nearest [of "x * 2 ^ k" m])
  qed
qed

lemma double_0 [simp]: "double 0 = 0"
  by (simp add: double_def)

subsection \<open>The binary64 values met in the examples\<close>

lemma double_value_1 [simp]:
  "double (- (2882303761517117 / 288230376151711744)) = - (2882303761517117 / 288230376151711744)"
  using double_eqI [where x = "- (2882303761517117 / 288230376151711744)" and k = 59 and m = "- 5764607523034234"] by simp

lemma double_value_2 [simp]:
  "double (2882303761517117 / 288230376151711744) = 2882303761517117 / 288230376151711744"
  using double_eqI [where x = "2882303761517117 / 288230376151711744" and k = 59 and m = "5764607523034234"] by simp

lemma double_value_3 [simp]:
  "double (- (1 / 100)) = - (5764607523034235 / 576460752303423488)"
  using double_eqI [where x = "- (1 / 100)" and k = 59 and m = "- 5764607523034235"] by simp

lemma double_value_4 [simp]:
  "double (1 / 100) = 5764607523034235 / 576460752303423488"
  using double_eqI [where x = "1 / 100" and k = 59 and m = "5764607523034235"] by simp

lemma double_value_5 [simp]:
  "double (- (5764607523034235 / 576460752303423488)) = - (5764607523034235 / 576460752303423488)"
  using double_eqI [where x = "- (5764607523034235 / 576460752303423488)" and k = 59 and m = "- 5764607523034235"] by simp

lemma double_value_6 [simp]:
  "double (5764607523034235 / 576460752303423488) = 5764607523034235 / 576460752303423488"
  using double_eqI [where x = "5764607523034235 / 576460752303423488" and k = 59 and m = "5764607523034235"] by simp

lemma double_value_7 [simp]:
  "double (1441151880758559 / 144115188075855872) = 1441151880758559 / 144115188075855872"
  using double_eqI [where x = "1441151880758559 / 144115188075855872" and k = 59 and m = "5764607523034236"] by simp

lemma double_value_8 [simp]:
  "double (- (1 / 50)) = - (5764607523034235 / 288230376151711744)"
  using double_eqI [where x = "- (1 / 50)" and k = 58 and m = "- 5764607523034235"] by simp

lemma double_value_9 [simp]:
  "double (1 / 50) = 5764607523034235 / 288230376151711744"
  using double_eqI [where x = "1 / 50" and k = 58 and m = "5764607523034235"] by simp

lemma double_value_10 [simp]:
  "double (- (5764607523034235 / 288230376151711744)) = - (5764607523034235 / 288230376151711744)"
  using double_eqI [where x = "- (5764607523034235 / 288230376151711744)" and k = 58 and m = "- 5764607523034235"] by simp

lemma double_value_11 [simp]:
  "double (5764607523034235 / 288230376151711744) = 5764607523034235 / 288230376151711744"
  using double_eqI [where x = "5764607523034235 / 288230376151711744" and k = 58 and m = "5764607523034235"] by simp

lemma double_value_12 [simp]:
  "double (1080863910568919 / 36028797018963968) = 1080863910568919 / 36028797018963968"
  using double_eqI [where x = "1080863910568919 / 36028797018963968" and k = 58 and m = "8646911284551352"] by simp

lemma double_value_13 [simp]:
  "double (3 / 100) = 1080863910568919 / 36028797018963968"
  using double_eqI [where x = "3 / 100" and k = 58 and m = "8646911284551352"] by simp

lemma double_value_14 [simp]:
  "double (17293822569102705 / 576460752303423488) = 1080863910568919 / 36028797018963968"
  using double_eqI [where x = "17293822569102705 / 576460752303423488" and k = 58 and m = "8646911284551352"] by simp

lemma double_value_15 [simp]:
  "double (23058430092136939 / 576460752303423488) = 5764607523034235 / 144115188075855872"
  using double_eqI [where x = "23058430092136939 / 576460752303423488" and k = 57 and m = "5764607523034235"] by simp

lemma double_value_16 [simp]:
  "double (- (1 / 25)) = - (5764607523034235 / 144115188075855872)"
  using double_eqI [where x = "- (1 / 25)" and k = 57 and m = "- 5764607523034235"] by simp

lemma double_value_17 [simp]:
  "double (1 / 25) = 5764607523034235 / 144115188075855872"
  using double_eqI [where x = "1 / 25" and k = 57 and m = "5764607523034235"] by simp

lemma double_value_18 [simp]:
  "double (- (5764607523034235 / 144115188075855872)) = - (5764607523034235 / 144115188075855872)"
  using double_eqI [where x = "- (5764607523034235 / 144115188075855872)" and k = 57 and m = "- 5764607523034235"] by simp

lemma double_value_19 [simp]:
  "double (5764607523034235 / 144115188075855872) = 5764607523034235 / 144115188075855872"
  using double_eqI [where x = "5764607523034235 / 144115188075855872" and k = 57 and m = "5764607523034235"] by simp

lemma double_value_20 [simp]:
  "double (1 / 20) = 3602879701896397 / 72057594037927936"
  using double_eqI [where x = "1 / 20" and k = 57 and m = "7205759403792794"] by simp

lemma double_value_21 [simp]:
  "double (28823037615171175 / 576460752303423488) = 3602879701896397 / 72057594037927936"
  using double_eqI [where x = "28823037615171175 / 576460752303423488" and k = 57 and m = "7205759403792794"] by simp

lemma double_value_22 [simp]:
  "double (3602879701896397 / 72057594037927936) = 3602879701896397 / 72057594037927936"
  using double_eqI [where x = "3602879701896397 / 72057594037927936" and k = 57 and m = "7205759403792794"] by simp

lemma double_value_23 [simp]:
  "double (34587645138205411 / 576460752303423488) = 8646911284551353 / 144115188075855872"
  using double_eqI [where x = "34587645138205411 / 576460752303423488" and k = 57 and m = "8646911284551353"] by simp

lemma double_value_24 [simp]:
  "double (9 / 100) = 3242591731706757 / 36028797018963968"
  using double_eqI [where x = "9 / 100" and k = 56 and m = "6485183463413514"] by simp

lemma double_value_25 [simp]:
  "double (57646075230342347 / 576460752303423488) = 7205759403792793 / 72057594037927936"
  using double_eqI [where x = "57646075230342347 / 576460752303423488" and k = 56 and m = "7205759403792793"] by simp

lemma double_value_26 [simp]:
  "double (1 / 10) = 3602879701896397 / 36028797018963968"
  using double_eqI [where x = "1 / 10" and k = 56 and m = "7205759403792794"] by simp

lemma double_value_27 [simp]:
  "double (3602879701896397 / 36028797018963968) = 3602879701896397 / 36028797018963968"
  using double_eqI [where x = "3602879701896397 / 36028797018963968" and k = 56 and m = "7205759403792794"] by simp

lemma double_value_28 [simp]:
  "double (1080863910568919 / 9007199254740992) = 1080863910568919 / 9007199254740992"
  using double_eqI [where x = "1080863910568919 / 9007199254740992" and k = 56 and m = "8646911284551352"] by simp

lemma double_value_29 [simp]:
  "double (3 / 25) = 1080863910568919 / 9007199254740992"
  using double_eqI [where x = "3 / 25" and k = 56 and m = "8646911284551352"] by simp

lemma double_value_30 [simp]:
  "double (- (1 / 8)) = - (1 / 8)"
  using double_eqI [where x = "- (1 / 8)" and k = 55 and m = "- 4503599627370496"] by simp

lemma double_value_31 [simp]:
  "double (1 / 8) = 1 / 8"
  using double_eqI [where x = "1 / 8" and k = 55 and m = "4503599627370496"] by simp

lemma double_value_32 [simp]:
  "double (- (13 / 100)) = - (1170935903116329 / 9007199254740992)"
  using double_eqI [where x = "- (13 / 100)" and k = 55 and m = "- 4683743612465316"] by simp

lemma double_value_33 [simp]:
  "double (13 / 100) = 1170935903116329 / 9007199254740992"
  using double_eqI [where x = "13 / 100" and k = 55 and m = "4683743612465316"] by simp

lemma double_value_34 [simp]:
  "double (1 / 4) = 1 / 4"
  using double_eqI [where x = "1 / 4" and k = 54 and m = "4503599627370496"] by simp

lemma double_value_35 [simp]:
  "double (1 / 2) = 1 / 2"
  using double_eqI [where x = "1 / 2" and k = 53 and m = "4503599627370496"] by simp

lemma double_value_36 [simp]:
  "double (- (1393 / 50)) = - (1960473212789719 / 70368744177664)"
  using double_eqI [where x = "- (1393 / 50)" and k = 48 and m = "- 7841892851158876"] by simp

lemma double_value_37 [simp]:
  "double (1393 / 50) = 1960473212789719 / 70368744177664"
  using double_eqI [where x = "1393 / 50" and k = 48 and m = "7841892851158876"] by simp

lemma double_value_38 [simp]:
  "double (- (7843300226042429 / 281474976710656)) = - (7843300226042429 / 281474976710656)"
  using double_eqI [where x = "- (7843300226042429 / 281474976710656)" and k = 48 and m = "- 7843300226042429"] by simp

lemma double_value_39 [simp]:
  "double (7843300226042429 / 281474976710656) = 7843300226042429 / 281474976710656"
  using double_eqI [where x = "7843300226042429 / 281474976710656" and k = 48 and m = "7843300226042429"] by simp

lemma double_value_40 [simp]:
  "double (1603 / 50) = 564005484583977 / 17592186044416"
  using double_eqI [where x = "1603 / 50" and k = 47 and m = "4512043876671816"] by simp

lemma double_value_41 [simp]:
  "double (9246430466946913403 / 288230376151711744) = 4514858626438923 / 140737488355328"
  using double_eqI [where x = "9246430466946913403 / 288230376151711744" and k = 47 and m = "4514858626438923"] by simp

lemma double_value_42 [simp]:
  "double (40) = 40"
  using double_eqI [where x = "40" and k = 47 and m = "5629499534213120"] by simp

lemma double_value_43 [simp]:
  "double (50) = 50"
  using double_eqI [where x = "50" and k = 47 and m = "7036874417766400"] by simp

lemma double_value_44 [simp]:
  "double (7843300226042429 / 140737488355328) = 7843300226042429 / 140737488355328"
  using double_eqI [where x = "7843300226042429 / 140737488355328" and k = 47 and m = "7843300226042429"] by simp

lemma double_value_45 [simp]:
  "double (5573 / 100) = 7843300226042429 / 140737488355328"
  using double_eqI [where x = "5573 / 100" and k = 47 and m = "7843300226042429"] by simp

lemma double_value_46 [simp]:
  "double (60) = 60"
  using double_eqI [where x = "60" and k = 47 and m = "8444249301319680"] by simp

lemma double_value_47 [simp]:
  "double (6793 / 100) = 1195037197997179 / 17592186044416"
  using double_eqI [where x = "6793 / 100" and k = 46 and m = "4780148791988716"] by simp

lemma double_value_48 [simp]:
  "double (70) = 70"
  using double_eqI [where x = "70" and k = 46 and m = "4925812092436480"] by simp

lemma double_value_49 [simp]:
  "double (- 100) = - 100"
  using double_eqI [where x = "- 100" and k = 46 and m = "- 7036874417766400"] by simp

lemma double_value_50 [simp]:
  "double (100) = 100"
  using double_eqI [where x = "100" and k = 46 and m = "7036874417766400"] by simp

lemma double_value_51 [simp]:
  "double (10001 / 100) = 7037578105208177 / 70368744177664"
  using double_eqI [where x = "10001 / 100" and k = 46 and m = "7037578105208177"] by simp

lemma double_value_52 [simp]:
  "double (57651839837865383035 / 576460752303423488) = 7037578105208177 / 70368744177664"
  using double_eqI [where x = "57651839837865383035 / 576460752303423488" and k = 46 and m = "7037578105208177"] by simp

lemma double_value_53 [simp]:
  "double (14075156210416355 / 140737488355328) = 3518789052604089 / 35184372088832"
  using double_eqI [where x = "14075156210416355 / 140737488355328" and k = 46 and m = "7037578105208178"] by simp

lemma double_value_54 [simp]:
  "double (110) = 110"
  using double_eqI [where x = "110" and k = 46 and m = "7740561859543040"] by simp

lemma double_value_55 [simp]:
  "double (200) = 200"
  using double_eqI [where x = "200" and k = 45 and m = "7036874417766400"] by simp

lemma double_value_56 [simp]:
  "double (300) = 300"
  using double_eqI [where x = "300" and k = 44 and m = "5277655813324800"] by simp

subsection \<open>Validation in binary64\<close>

lemma validate_splits64_None_iff:
  "validate_splits64 ss = None \<longleftrightarrow> (\<forall>s \<in> set ss. check_split64 s = None)"
  by (induction ss) (simp_all split: option.splits)

lemma validate_splits64_Some_source:
  "validate_splits64 ss = Some e \<Longrightarrow> \<exists>s \<in> set ss. check_split64 s = Some e"
  by (induction ss) (auto split: option.splits)

lemma validate64_None_iff:
  "validate64 people = None \<longleftrightarrow>
     (\<forall>p \<in> set people. \<forall>s \<in> set (p_splits p). check_split64 s = None)"
proof (induction people)
  case Nil
  show ?case by simp
next
  case (Cons p ps)
  show ?case
  proof (cases "validate_splits64 (p_splits p)")
    case None
    then show ?thesis using Cons validate_splits64_None_iff [of "p_splits p"] by simp
  next
    case (Some e)
    then have "\<not> (\<forall>s \<in> set (p_splits p). check_split64 s = None)"
      using validate_splits64_None_iff [of "p_splits p"] by simp
    then show ?thesis using Some by auto
  qed
qed

lemma validate64_Some_source:
  "validate64 people = Some e \<Longrightarrow>
     \<exists>p \<in> set people. \<exists>s \<in> set (p_splits p). check_split64 s = Some e"
proof (induction people)
  case Nil
  then show ?case by simp
next
  case (Cons p ps)
  show ?case
  proof (cases "validate_splits64 (p_splits p)")
    case None
    with Cons show ?thesis by auto
  next
    case (Some e')
    with Cons.prems have "e' = e" by simp
    with Some validate_splits64_Some_source [of "p_splits p" e] show ?thesis by auto
  qed
qed

lemma first_failure_reported64:
  assumes "person \<in> set people" and "split \<in> set (p_splits person)"
    and "check_split64 split \<noteq> None"
  shows "\<exists>e. balances_route64 people = Status400 e
           \<and> settlements_route64 people = Some (Status400 e)
           \<and> (\<exists>p \<in> set people. \<exists>s \<in> set (p_splits p). check_split64 s = Some e)"
proof -
  from assms validate64_None_iff [of people] obtain e where e: "validate64 people = Some e"
    by (cases "validate64 people") auto
  then have "balances_route64 people = Status400 e"
    and "settlements_route64 people = Some (Status400 e)"
    by (simp_all add: balances_route64_def settlements_route64_def)
  with validate64_Some_source [OF e] show ?thesis by blast
qed

lemma only_failure_reported64:
  assumes "person \<in> set people" and "split \<in> set (p_splits person)"
    and "check_split64 split = Some err"
    and "\<forall>p \<in> set people. \<forall>s \<in> set (p_splits p).
           check_split64 s = None \<or> check_split64 s = Some err"
  shows "balances_route64 people = Status400 err
         \<and> settlements_route64 people = Some (Status400 err)"
proof -
  have "check_split64 split \<noteq> None" using assms(3) by simp
  from first_failure_reported64 [OF assms(1,2) this] obtain e where
    r: "balances_route64 people = Status400 e" "settlements_route64 people = Some (Status400 e)"
    and "\<exists>p \<in> set people. \<exists>s \<in> set (p_splits p). check_split64 s = Some e"
    by blast
  with assms(4) have "e = err" by force
  with r show ?thesis by simp
qed

text \<open>
  Claim C6, as the code has it. For a split row of type \<open>exact\<close> reached through some
  person of the snapshot, the check adds the values of all split rows of the expense in
  binary64, in their order, and compares with the binary64 sum of the amount and 0.01.
  When the sum of the values is the greater, the check of this row produces the error with
  the expense id, that sum and the amount, and both routes answer with status 400, with
  exactly this error unless some row of the snapshot fails with a different one (the first
  failing row decides). Otherwise the row passes the check.
\<close>

theorem exact_splits_validation64:
  assumes "person \<in> set people" and "split \<in> set (p_splits person)"
    and "s_splitType split = Exact"
  shows "(totalSplit64 (s_expense split)
            > fadd (toNumber (e_amount (s_expense split))) (double (1 / 100)) \<longrightarrow>
            check_split64 split =
              Some (InvalidExact (e_id (s_expense split)) (totalSplit64 (s_expense split))
                      (toNumber (e_amount (s_expense split))))
          \<and> (\<exists>e. balances_route64 people = Status400 e
                 \<and> settlements_route64 people = Some (Status400 e))
          \<and> ((\<forall>p \<in> set people. \<forall>s \<in> set (p_splits p).
                  check_split64 s = None \<or> check_split64 s = check_split64 split) \<longrightarrow>
               balances_route64 people =
                 Status400 (InvalidExact (e_id (s_expense split)) (totalSplit64 (s_expense split))
                      (toNumber (e_amount (s_expense split))))
               \<and> settlements_route64 people =
                 Some (Status400 (InvalidExact (e_id (s_expense split))
                      (totalSplit64 (s_expense split)) (toNumber (e_amount (s_expense split)))))))
       \<and> (totalSplit64 (s_expense split)
            \<le> fadd (toNumber (e_amount (s_expense split))) (double (1 / 100)) \<longrightarrow>
            check_split64 split = None)"
proof -
  let ?sum = "totalSplit64 (s_expense split)"
  let ?bound = "fadd (toNumber (e_amount (s_expense split))) (double (1 / 100))"
  let ?E = "InvalidExact (e_id (s_expense split)) ?sum (toNumber (e_amount (s_expense split)))"
  have pass: "check_split64 split = None" if "?sum \<le> ?bound"
    using that assms(3) by (simp add: check_split64_def Let_def)
  have fail: "check_split64 split = Some ?E" if "?sum > ?bound"
    using that assms(3) by (simp add: check_split64_def Let_def)
  have rej: "\<exists>e. balances_route64 people = Status400 e
                 \<and> settlements_route64 people = Some (Status400 e)"
    if "?sum > ?bound"
    using first_failure_reported64 [OF assms(1,2)] fail [OF that] by auto
  have this: "balances_route64 people = Status400 ?E
              \<and> settlements_route64 people = Some (Status400 ?E)"
    if "?sum > ?bound"
      and "\<forall>p \<in> set people. \<forall>s \<in> set (p_splits p).
             check_split64 s = None \<or> check_split64 s = check_split64 split"
    using only_failure_reported64 [OF assms(1,2) fail [OF that(1)]] that(2) fail [OF that(1)]
    by simp
  from pass fail rej this show ?thesis by blast
qed

text \<open>
  Claim C6 as stated fails at the bound: an expense of amount 0.09 with one exact split row
  of 0.10 has a sum of values equal to the amount plus 0.01, but in binary64
  \<open>0.09 + 0.01\<close> is \<open>0.09999999999999999\<close>, below the number \<open>0.1\<close>, and both
  routes answer with status 400.
\<close>

theorem exact_sum_at_bound_rejected:
  "sum_list (map r_value (e_splits edge_exact_expense)) = e_amount edge_exact_expense + 1 / 100
   \<and> balances_route64 edge_exact_people =
       Status400 (InvalidExact 9 (3602879701896397 / 36028797018963968)
                                 (3242591731706757 / 36028797018963968))
   \<and> settlements_route64 edge_exact_people =
       Some (Status400 (InvalidExact 9 (3602879701896397 / 36028797018963968)
                                       (3242591731706757 / 36028797018963968)))"
  by (simp add: edge_exact_expense_def edge_exact_people_def balances_route64_def
        settlements_route64_def check_split64_def totalSplit64_def toNumber_def fadd_def)

text \<open>
  The expense of amount 100 with exact splits A: 40 and B: 70 is rejected, with the sum 110;
  with A: 40 and B: 60 the rows pass.
\<close>

theorem exact_splits_validation64_witness:
  "check_split64 \<lparr> s_splitType = Exact, s_value = 40, s_expense = exact_expense \<rparr>
     = Some (InvalidExact 1 110 100)
   \<and> balances_route64 exact_people = Status400 (InvalidExact 1 110 100)
   \<and> settlements_route64 exact_people = Some (Status400 (InvalidExact 1 110 100))
   \<and> check_split64 \<lparr> s_splitType = Exact, s_value = 40, s_expense = exact_ok_expense \<rparr> = None"
proof -
  let ?s = "\<lparr> s_splitType = Exact, s_value = 40, s_expense = exact_expense \<rparr>"
  let ?t = "\<lparr> s_splitType = Exact, s_value = 40, s_expense = exact_ok_expense \<rparr>"
  have tot: "totalSplit64 exact_expense = 110" "totalSplit64 exact_ok_expense = 100"
    "fadd (toNumber 100) (double (1 / 100)) = 7037578105208177 / 70368744177664"
    by (simp_all add: exact_expense_def exact_ok_expense_def totalSplit64_def toNumber_def
          fadd_def)
  have other: "check_split64 \<lparr> s_splitType = Exact, s_value = 70, s_expense = exact_expense \<rparr>
                 = check_split64 ?s"
    by (simp add: check_split64_def)
  from exact_splits_validation64 [of "hd exact_people" exact_people ?s]
    exact_splits_validation64 [of "hd exact_ok_people" exact_ok_people ?t] tot other
  show ?thesis
    by (simp add: exact_people_def exact_expense_def exact_ok_people_def exact_ok_expense_def
          toNumber_def)
qed

text \<open>
  Claim C7, as the code has it. For a split row of type \<open>percentage\<close> reached through
  some person of the snapshot, the check adds the values of all split rows of the expense
  in binary64, in their order, and compares with the number 100.01. When the sum is the
  greater, the check of this row produces the error with the expense id and that sum, and
  both routes answer with status 400, with exactly this error unless some row of the
  snapshot fails with a different one. Otherwise the row passes the check.
\<close>

theorem percentage_splits_validation64:
  assumes "person \<in> set people" and "split \<in> set (p_splits person)"
    and "s_splitType split = Percentage"
  shows "(totalSplit64 (s_expense split) > double (10001 / 100) \<longrightarrow>
            check_split64 split =
              Some (InvalidPercentage (e_id (s_expense split)) (totalSplit64 (s_expense split)))
          \<and> (\<exists>e. balances_route64 people = Status400 e
                 \<and> settlements_route64 people = Some (Status400 e))
          \<and> ((\<forall>p \<in> set people. \<forall>s \<in> set (p_splits p).
                  check_split64 s = None \<or> check_split64 s = check_split64 split) \<longrightarrow>
               balances_route64 people =
                 Status400 (InvalidPercentage (e_id (s_expense split))
                              (totalSplit64 (s_expense split)))
               \<and> settlements_route64 people =
                 Some (Status400 (InvalidPercentage (e_id (s_expense split))
                                    (totalSplit64 (s_expense split))))))
       \<and> (totalSplit64 (s_expense split) \<le> double (10001 / 100) \<longrightarrow>
            check_split64 split = None)"
proof -
  let ?sum = "totalSplit64 (s_expense split)"
  let ?E = "InvalidPercentage (e_id (s_expense split)) ?sum"
  have pass: "check_split64 split = None" if "?sum \<le> double (10001 / 100)"
    using that assms(3) by (simp add: check_split64_def Let_def)
  have fail: "check_split64 split = Some ?E" if "?sum > double (10001 / 100)"
    using that assms(3) by (simp add: check_split64_def Let_def)
  have rej: "\<exists>e. balances_route64 people = Status400 e
                 \<and> settlements_route64 people = Some (Status400 e)"
    if "?sum > double (10001 / 100)"
    using first_failure_reported64 [OF assms(1,2)] fail [OF that] by auto
  have this: "balances_route64 people = Status400 ?E
              \<and> settlements_route64 people = Some (Status400 ?E)"
    if "?sum > double (10001 / 100)"
      and "\<forall>p \<in> set people. \<forall>s \<in> set (p_splits p).
             check_split64 s = None \<or> check_split64 s = check_split64 split"
    using only_failure_reported64 [OF assms(1,2) fail [OF that(1)]] that(2) fail [OF that(1)]
    by simp
  from pass fail rej this show ?thesis by blast
qed

text \<open>
  Claim C7 as stated fails at the bound: the percentages 0.02, 32.06 and 67.93 add up to
  100.01, but their binary64 sum is \<open>100.01000000000002\<close>, above the number
  \<open>100.01\<close>, and both routes answer with status 400.
\<close>

theorem percentage_sum_at_bound_rejected:
  "sum_list (map r_value (e_splits edge_pct_expense)) = 10001 / 100
   \<and> balances_route64 edge_pct_people =
       Status400 (InvalidPercentage 10 (3518789052604089 / 35184372088832))
   \<and> settlements_route64 edge_pct_people =
       Some (Status400 (InvalidPercentage 10 (3518789052604089 / 35184372088832)))
   \<and> double (10001 / 100) < 3518789052604089 / 35184372088832"
  by (simp add: edge_pct_expense_def edge_pct_people_def balances_route64_def
        settlements_route64_def check_split64_def totalSplit64_def toNumber_def fadd_def)

lemma pct_ok_balances64:
  "balances_route64 pct_ok_people =
     Status200 [\<lparr> name = ''A'', paid = 200, owes = 100, balance = 100 \<rparr>,
                \<lparr> name = ''B'', paid = 0, owes = 100, balance = - 100 \<rparr>]"
  by (simp add: balances_route64_def pct_ok_people_def pct_ok_expense_def
        check_split64_def totalSplit64_def computeBalances64_def balance_of64_def paid_raw64_def
        owes_raw64_def share64_def numPeople_def round2_def toNumber_def toFixed2_def
        fadd_def fsub_def fmul_def fdiv_def)

text \<open>
  Percentage splits A: 50 and B: 60 of an expense of 200 are rejected; A: 50 and B: 50
  pass, and each of A and B owes 100.
\<close>

theorem percentage_splits_validation64_witness:
  "check_split64 \<lparr> s_splitType = Percentage, s_value = 60, s_expense = pct_bad_expense \<rparr>
     = Some (InvalidPercentage 3 110)
   \<and> balances_route64 pct_bad_people = Status400 (InvalidPercentage 3 110)
   \<and> settlements_route64 pct_bad_people = Some (Status400 (InvalidPercentage 3 110))
   \<and> check_split64 \<lparr> s_splitType = Percentage, s_value = 50, s_expense = pct_ok_expense \<rparr> = None
   \<and> balances_route64 pct_ok_people =
       Status200 [\<lparr> name = ''A'', paid = 200, owes = 100, balance = 100 \<rparr>,
                  \<lparr> name = ''B'', paid = 0, owes = 100, balance = - 100 \<rparr>]"
proof -
  let ?s = "\<lparr> s_splitType = Percentage, s_value = 60, s_expense = pct_bad_expense \<rparr>"
  let ?t = "\<lparr> s_splitType = Percentage, s_value = 50, s_expense = pct_ok_expense \<rparr>"
  have tot: "totalSplit64 pct_bad_expense = 110" "totalSplit64 pct_ok_expense = 100"
    by (simp_all add: pct_bad_expense_def pct_ok_expense_def totalSplit64_def toNumber_def
          fadd_def)
  have other: "check_split64 \<lparr> s_splitType = Percentage, s_value = 50, s_expense = pct_bad_expense \<rparr>
                 = check_split64 ?s"
    by (simp add: check_split64_def)
  from percentage_splits_validation64 [of "pct_bad_people ! 1" pct_bad_people ?s]
    percentage_splits_validation64 [of "pct_ok_people ! 0" pct_ok_people ?t] tot other
    pct_ok_balances64
  show ?thesis
    by (simp add: pct_bad_people_def pct_bad_expense_def pct_ok_people_def pct_ok_expense_def)
qed

subsection \<open>The balance figure in binary64\<close>

lemmas eval64 =
  computeBalances64_def balance_of64_def paid_raw64_def owes_raw64_def share64_def
  numPeople_def round2_def toNumber_def toFixed2_def fadd_def fsub_def fmul_def fdiv_def
  check_split64_def totalSplit64_def

text \<open>
  Claim C1, as the code has it. Every row of the balances report has as paid figure the
  two-decimal rounding of the binary64 sum of the amounts paid, as owes figure that of the
  binary64 sum of the shares owed, and as balance that of the binary64 difference of the two
  unrounded sums; the report is the list of rows the settlements route hands to its loop.
\<close>

theorem balance_rounds_the_difference64:
  assumes "balances_route64 people = Status200 rows" and "k < length people"
  shows "rows ! k =
           \<lparr> name = p_name (people ! k),
             paid = toFixed2 (foldl (\<lambda>sum amount. fadd sum (toNumber amount)) 0
                                (p_paid (people ! k))),
             owes = toFixed2 (foldl (\<lambda>sum split. fadd sum (share64 split)) 0
                                (p_splits (people ! k))),
             balance = toFixed2 (fsub
                         (foldl (\<lambda>sum amount. fadd sum (toNumber amount)) 0
                            (p_paid (people ! k)))
                         (foldl (\<lambda>sum split. fadd sum (share64 split)) 0
                            (p_splits (people ! k)))) \<rparr>
         \<and> rows = computeBalances64 people
         \<and> (validate64 people = None \<longrightarrow>
              settlements_route64 people = map_option Status200 (plan64 rows))"
proof -
  from assms(1) have rows: "rows = computeBalances64 people" and v: "validate64 people = None"
    by (simp_all add: balances_route64_def split: option.splits)
  then have "rows ! k = balance_of64 (people ! k)"
    using assms(2) by (simp add: computeBalances64_def)
  then show ?thesis
    using rows by (simp add: balance_of64_def paid_raw64_def owes_raw64_def
        settlements_route64_def v)
qed

lemma quarter_validate64: "validate64 quarter_people = None"
  by (simp add: quarter_people_def check_split64_def)

lemma quarter_balances64:
  "computeBalances64 quarter_people =
     [\<lparr> name = ''A'', paid = 1 / 4, owes = 1170935903116329 / 9007199254740992,
        balance = 1170935903116329 / 9007199254740992 \<rparr>,
      \<lparr> name = ''B'', paid = 0, owes = 1170935903116329 / 9007199254740992,
        balance = - (1170935903116329 / 9007199254740992) \<rparr>]"
  by (simp add: quarter_people_def quarter_expense_def eval64)

lemma half_validate64: "validate64 half_people = None"
  by (simp add: half_people_def check_split64_def)

lemma half_balances64:
  "computeBalances64 half_people =
     [\<lparr> name = ''A'', paid = 7843300226042429 / 140737488355328,
        owes = 1960473212789719 / 70368744177664,
        balance = 1960473212789719 / 70368744177664 \<rparr>,
      \<lparr> name = ''B'', paid = 0, owes = 1960473212789719 / 70368744177664,
        balance = - (1960473212789719 / 70368744177664) \<rparr>]"
  by (simp add: half_people_def half_expense_def eval64)

text \<open>
  Claim C1 as stated fails: A paid an expense of 0.25 split equally between A and B. The
  balance of A is the number 0.13, the rounding of 0.125, while the rounded paid figure
  minus the rounded owes figure is 0.25 - 0.13, the number 0.12 in binary64 and next to it
  in exact arithmetic.
\<close>

theorem balance_not_from_rounded_figures:
  "balances_route64 quarter_people =
     Status200 [\<lparr> name = ''A'', paid = 1 / 4, owes = double (13 / 100),
                   balance = double (13 / 100) \<rparr>,
                \<lparr> name = ''B'', paid = 0, owes = double (13 / 100),
                   balance = - double (13 / 100) \<rparr>]
   \<and> fsub (toFixed2 (paid_raw64 (quarter_people ! 0))) (toFixed2 (owes_raw64 (quarter_people ! 0)))
       = double (12 / 100)
   \<and> toFixed2 (paid_raw64 (quarter_people ! 0)) - toFixed2 (owes_raw64 (quarter_people ! 0))
       < 121 / 1000
   \<and> 129 / 1000 < double (13 / 100)
   \<and> double (12 / 100) < 121 / 1000"
  by (simp add: balances_route64_def quarter_validate64 quarter_balances64)
     (simp add: quarter_people_def quarter_expense_def eval64)

text \<open>
  An expense of 55.73 split equally between A and B: each owes the number 27.86, the
  two-decimal rounding of the binary64 quotient, which lies below 27.865.
\<close>

theorem balance_rounds_the_difference64_witness:
  "balances_route64 half_people = Status200 (computeBalances64 half_people)
   \<and> 1 < length half_people
   \<and> computeBalances64 half_people ! 1 =
       \<lparr> name = ''B'', paid = 0, owes = double (2786 / 100), balance = - double (2786 / 100) \<rparr>"
proof -
  have r: "balances_route64 half_people = Status200 (computeBalances64 half_people)"
    by (simp add: balances_route64_def half_validate64)
  have k: "1 < length half_people" by (simp add: half_people_def)
  have v: "foldl (\<lambda>sum amount. fadd sum (toNumber amount)) 0 (p_paid (half_people ! 1)) = 0"
    "foldl (\<lambda>sum split. fadd sum (share64 split)) 0 (p_splits (half_people ! 1))
       = 7843300226042429 / 281474976710656"
    "p_name (half_people ! 1) = ''B''"
    by (simp_all add: half_people_def half_expense_def eval64)
  from balance_rounds_the_difference64 [OF r k] r k show ?thesis
    unfolding v by (simp add: toFixed2_def fsub_def round2_def)
qed

subsection \<open>One pass of the loop in binary64\<close>

lemma add_balance64_length [simp]: "length (add_balance64 m a bal) = length bal"
  by (simp add: add_balance64_def)

lemma sub_balance64_length [simp]: "length (sub_balance64 m a bal) = length bal"
  by (simp add: sub_balance64_def)

lemma add_balance64_nth:
  "k < length bal \<Longrightarrow>
     add_balance64 m a bal ! k =
       (if k = m then (bal ! k)\<lparr> balance := fadd (balance (bal ! k)) a \<rparr> else bal ! k)"
  by (simp add: add_balance64_def nth_list_update)

lemma sub_balance64_nth:
  "k < length bal \<Longrightarrow>
     sub_balance64 m a bal ! k =
       (if k = m then (bal ! k)\<lparr> balance := fsub (balance (bal ! k)) a \<rparr> else bal ! k)"
  by (simp add: sub_balance64_def nth_list_update)

lemma settle_step64_length [simp]:
  "length (st_balances (settle_step64 ds cs st)) = length (st_balances st)"
  by (simp add: settle_step64_def Let_def)

lemma settle_step64_row:
  assumes "k < length (st_balances st)"
  shows "name (st_balances (settle_step64 ds cs st) ! k) = name (st_balances st ! k)"
    and "paid (st_balances (settle_step64 ds cs st) ! k) = paid (st_balances st ! k)"
    and "owes (st_balances (settle_step64 ds cs st) ! k) = owes (st_balances st ! k)"
  using assms by (simp_all add: settle_step64_def Let_def add_balance64_nth sub_balance64_nth)

lemma settle_step64_balance:
  assumes "k < length (st_balances st)" and "ds ! st_i st \<noteq> cs ! st_j st"
  shows "balance (st_balances (settle_step64 ds cs st) ! k) =
           (if amount64 ds cs st > double (1 / 100) \<and> k = ds ! st_i st
            then fadd (balance (st_balances st ! k)) (amount64 ds cs st)
            else if amount64 ds cs st > double (1 / 100) \<and> k = cs ! st_j st
            then fsub (balance (st_balances st ! k)) (amount64 ds cs st)
            else balance (st_balances st ! k))"
  using assms by (simp add: settle_step64_def Let_def add_balance64_nth sub_balance64_nth)

lemma settle_step64_settlements:
  "st_settlements (settle_step64 ds cs st) =
     (if amount64 ds cs st > double (1 / 100)
      then st_settlements st @
           [\<lparr> t_from = name (st_balances st ! (ds ! st_i st)),
              t_to = name (st_balances st ! (cs ! st_j st)),
              t_amount = toFixed2 (amount64 ds cs st) \<rparr>]
      else st_settlements st)"
  by (simp add: settle_step64_def Let_def)

lemma settle_step64_i:
  "st_i (settle_step64 ds cs st) =
     (if \<bar>balance (st_balances (settle_step64 ds cs st) ! (ds ! st_i st))\<bar> < double (1 / 100)
      then st_i st + 1 else st_i st)"
  by (simp add: settle_step64_def Let_def)

lemma settle_step64_j:
  "st_j (settle_step64 ds cs st) =
     (if \<bar>balance (st_balances (settle_step64 ds cs st) ! (cs ! st_j st))\<bar> < double (1 / 100)
      then st_j st + 1 else st_j st)"
  by (simp add: settle_step64_def Let_def)

lemma settle_step64_i_bounds:
  "st_i st \<le> st_i (settle_step64 ds cs st) \<and> st_i (settle_step64 ds cs st) \<le> st_i st + 1"
  by (simp add: settle_step64_i)

lemma settle_step64_j_bounds:
  "st_j st \<le> st_j (settle_step64 ds cs st) \<and> st_j (settle_step64 ds cs st) \<le> st_j st + 1"
  by (simp add: settle_step64_j)

text \<open>The positions the loop works on: a debtor and a creditor, two different rows.\<close>

lemma current_rows:
  assumes bounds: "\<forall>k \<in> set ds \<union> set cs. k < n" and disj: "set ds \<inter> set cs = {}"
    and i: "st_i st < length ds" and j: "st_j st < length cs"
  shows "ds ! st_i st < n" and "cs ! st_j st < n" and "ds ! st_i st \<noteq> cs ! st_j st"
proof -
  have "ds ! st_i st \<in> set ds" and "cs ! st_j st \<in> set cs"
    using i j by simp_all
  then show "ds ! st_i st < n" and "cs ! st_j st < n" and "ds ! st_i st \<noteq> cs ! st_j st"
    using bounds disj by auto
qed

lemma cent_positive: "0 < double (1 / 100)"
  by simp

text \<open>
  A settlement brings the debtor or the creditor to exactly zero, also in binary64, and
  moves that cursor.
\<close>

lemma settle_step64_advances:
  assumes d: "ds ! st_i st < length (st_balances st)"
    and c: "cs ! st_j st < length (st_balances st)"
    and ne: "ds ! st_i st \<noteq> cs ! st_j st"
    and a: "amount64 ds cs st > double (1 / 100)"
  shows "st_i st + st_j st + 1 \<le> st_i (settle_step64 ds cs st) + st_j (settle_step64 ds cs st)"
proof (cases "- balance (st_balances st ! (ds ! st_i st)) \<le> balance (st_balances st ! (cs ! st_j st))")
  case True
  then have "amount64 ds cs st = - balance (st_balances st ! (ds ! st_i st))"
    by (simp add: amount64_def)
  then have "balance (st_balances (settle_step64 ds cs st) ! (ds ! st_i st)) = 0"
    using settle_step64_balance [OF d ne] a by (simp add: fadd_def)
  then have "st_i (settle_step64 ds cs st) = st_i st + 1"
    by (simp add: settle_step64_i)
  with settle_step64_j_bounds [of st ds cs] show ?thesis by simp
next
  case False
  then have "amount64 ds cs st = balance (st_balances st ! (cs ! st_j st))"
    by (simp add: amount64_def)
  then have "balance (st_balances (settle_step64 ds cs st) ! (cs ! st_j st)) = 0"
    using settle_step64_balance [OF c ne] a ne by (simp add: fsub_def)
  then have "st_j (settle_step64 ds cs st) = st_j st + 1"
    by (simp add: settle_step64_j)
  with settle_step64_i_bounds [of st ds cs] show ?thesis by simp
qed

text \<open>A pass that is not stuck moves a cursor.\<close>

lemma settle_step64_progress:
  assumes bounds: "\<forall>k \<in> set ds \<union> set cs. k < length (st_balances st)"
    and disj: "set ds \<inter> set cs = {}"
    and i: "st_i st < length ds" and j: "st_j st < length cs"
    and ns: "\<not> stuck64 ds cs st"
  shows "st_i st + st_j st + 1 \<le> st_i (settle_step64 ds cs st) + st_j (settle_step64 ds cs st)"
proof (cases "amount64 ds cs st > double (1 / 100)")
  case True
  note cur = current_rows [OF bounds disj i j]
  from settle_step64_advances [OF cur True] show ?thesis .
next
  case False
  note cur = current_rows [OF bounds disj i j]
  from False have same: "balance (st_balances (settle_step64 ds cs st) ! k)
                           = balance (st_balances st ! k)" if "k < length (st_balances st)" for k
    using settle_step64_balance [OF that cur(3)] by simp
  from ns i j False have
    "\<bar>balance (st_balances st ! (ds ! st_i st))\<bar> < double (1 / 100)
     \<or> \<bar>balance (st_balances st ! (cs ! st_j st))\<bar> < double (1 / 100)"
    by (auto simp: stuck64_def)
  then show ?thesis
  proof
    assume "\<bar>balance (st_balances st ! (ds ! st_i st))\<bar> < double (1 / 100)"
    then have "st_i (settle_step64 ds cs st) = st_i st + 1"
      using same [OF cur(1)] by (simp add: settle_step64_i)
    with settle_step64_j_bounds [of st ds cs] show ?thesis by simp
  next
    assume "\<bar>balance (st_balances st ! (cs ! st_j st))\<bar> < double (1 / 100)"
    then have "st_j (settle_step64 ds cs st) = st_j st + 1"
      using same [OF cur(2)] by (simp add: settle_step64_j)
    with settle_step64_i_bounds [of st ds cs] show ?thesis by simp
  qed
qed

lemma stuck64_step:
  assumes "stuck64 ds cs st"
  shows "settle_step64 ds cs st = st"
  using assms by (simp add: stuck64_def settle_step64_def Let_def)

subsection \<open>The loop and its passes\<close>

lemma settle_run64_invariant:
  assumes "I st"
    and "\<And>s. I s \<Longrightarrow> st_i s < length ds \<Longrightarrow> st_j s < length cs \<Longrightarrow> I (settle_step64 ds cs s)"
  shows "I (settle_run64 n ds cs st)"
  using assms(1)
proof (induction n arbitrary: st)
  case 0
  then show ?case by simp
next
  case (Suc n)
  then show ?case using assms(2) by simp
qed

lemma settle_loop64_run:
  assumes ret: "settle_loop64 ds cs st = Some st'"
  shows "(\<exists>n. st' = settle_run64 n ds cs st) \<and> \<not> (st_i st' < length ds \<and> st_j st' < length cs)"
proof -
  let ?Q = "\<lambda>a b s s'. (\<exists>n. s' = settle_run64 n a b s) \<and> \<not> (st_i s' < length a \<and> st_j s' < length b)"
  show ?thesis
  proof (rule settle_loop64.raw_induct [where P = ?Q, OF _ ret])
    fix loop a b s s'
    assume IH: "\<And>a b s s'. loop a b s = Some s' \<Longrightarrow> ?Q a b s s'"
      and body: "(if st_i s < length a \<and> st_j s < length b
                  then loop a b (settle_step64 a b s) else Some s) = Some s'"
    show "?Q a b s s'"
    proof (cases "st_i s < length a \<and> st_j s < length b")
      case True
      with body have "loop a b (settle_step64 a b s) = Some s'" by simp
      from IH [OF this] obtain n where n: "s' = settle_run64 n a b (settle_step64 a b s)"
        and e: "\<not> (st_i s' < length a \<and> st_j s' < length b)" by blast
      from n True have "s' = settle_run64 (Suc n) a b s" by simp
      with e show ?thesis by blast
    next
      case False
      with body have "s' = s" by simp
      then have "s' = settle_run64 0 a b s" by simp
      with False \<open>s' = s\<close> show ?thesis by blast
    qed
  qed
qed

lemma settle_loop64_of_run: "settle_loop64 ds cs (settle_run64 n ds cs st) = settle_loop64 ds cs st"
proof (induction n arbitrary: st)
  case 0
  show ?case by simp
next
  case (Suc n)
  show ?case
  proof (cases "st_i st < length ds \<and> st_j st < length cs")
    case True
    then show ?thesis using Suc [of "settle_step64 ds cs st"]
      by (simp add: settle_loop64.simps [of ds cs st])
  next
    case False
    then have "settle_run64 (Suc n) ds cs st = st" by auto
    then show ?thesis by (simp only:)
  qed
qed

lemma settle_loop64_fixed_point:
  assumes "st_i st < length ds" "st_j st < length cs" "settle_step64 ds cs st = st"
  shows "settle_loop64 ds cs st = None"
proof (cases "settle_loop64 ds cs st")
  case None
  then show ?thesis .
next
  case (Some st')
  have "\<not> (ds = ds \<and> cs = cs \<and> st = st)"
  proof (rule settle_loop64.raw_induct
      [where P = "\<lambda>a b s s'. \<not> (a = ds \<and> b = cs \<and> s = st)", OF _ Some])
    fix loop a b s s'
    assume IH: "\<And>a b s s'. loop a b s = Some s' \<Longrightarrow> \<not> (a = ds \<and> b = cs \<and> s = st)"
      and body: "(if st_i s < length a \<and> st_j s < length b
                  then loop a b (settle_step64 a b s) else Some s) = Some s'"
    show "\<not> (a = ds \<and> b = cs \<and> s = st)"
    proof
      assume eq: "a = ds \<and> b = cs \<and> s = st"
      with body assms have "loop ds cs st = Some s'" by simp
      with IH show False by blast
    qed
  qed
  then show ?thesis by simp
qed

lemma settle_loop64_stuck:
  assumes "stuck64 ds cs (settle_run64 n ds cs st)"
  shows "settle_loop64 ds cs st = None"
proof -
  let ?s = "settle_run64 n ds cs st"
  from assms have "st_i ?s < length ds" "st_j ?s < length cs"
    by (simp_all add: stuck64_def)
  then have "settle_loop64 ds cs ?s = None"
    using stuck64_step [OF assms] by (rule settle_loop64_fixed_point)
  then show ?thesis by (simp add: settle_loop64_of_run)
qed

lemma settle_run64_length [simp]:
  "length (st_balances (settle_run64 n ds cs st)) = length (st_balances st)"
  by (induction n arbitrary: st) simp_all

lemma settle_loop64_returns:
  assumes bounds: "\<forall>k \<in> set ds \<union> set cs. k < length (st_balances st)"
    and disj: "set ds \<inter> set cs = {}"
    and ns: "\<forall>n. \<not> stuck64 ds cs (settle_run64 n ds cs st)"
  shows "\<exists>st'. settle_loop64 ds cs st = Some st'"
  using bounds ns
proof (induction "(length ds - st_i st) + (length cs - st_j st)" arbitrary: st rule: less_induct)
  case less
  show ?case
  proof (cases "st_i st < length ds \<and> st_j st < length cs")
    case False
    then have "settle_loop64 ds cs st = Some st"
      by (subst settle_loop64.simps) auto
    then show ?thesis by blast
  next
    case True
    let ?s = "settle_step64 ds cs st"
    from less.prems(2) have "\<not> stuck64 ds cs (settle_run64 0 ds cs st)" by blast
    then have "\<not> stuck64 ds cs st" by simp
    from settle_step64_progress [OF less.prems(1) disj _ _ this] True
    have adv: "st_i st + st_j st + 1 \<le> st_i ?s + st_j ?s" by simp
    have "st_i ?s \<le> st_i st + 1" "st_j ?s \<le> st_j st + 1"
      using settle_step64_i_bounds [of st ds cs] settle_step64_j_bounds [of st ds cs]
      by simp_all
    with adv True have m: "(length ds - st_i ?s) + (length cs - st_j ?s)
                            < (length ds - st_i st) + (length cs - st_j st)"
      by linarith
    have b: "\<forall>k \<in> set ds \<union> set cs. k < length (st_balances ?s)"
      using less.prems(1) by simp
    have "\<forall>n. \<not> stuck64 ds cs (settle_run64 n ds cs ?s)"
    proof
      fix n
      from less.prems(2) have "\<not> stuck64 ds cs (settle_run64 (Suc n) ds cs st)" by blast
      with True show "\<not> stuck64 ds cs (settle_run64 n ds cs ?s)" by simp
    qed
    from less.hyps [OF m b this] obtain st' where "settle_loop64 ds cs ?s = Some st'" ..
    with True show ?thesis by (simp add: settle_loop64.simps [of ds cs st])
  qed
qed

subsection \<open>Debtors and creditors\<close>

lemma debtors_set: "set (debtors bal) = {k. k < length bal \<and> balance (bal ! k) < 0}"
  by (auto simp: debtors_def)

lemma creditors_set: "set (creditors bal) = {k. k < length bal \<and> balance (bal ! k) > 0}"
  by (auto simp: creditors_def)

lemma debtors_distinct: "distinct (debtors bal)"
  by (simp add: debtors_def)

lemma creditors_distinct: "distinct (creditors bal)"
  by (simp add: creditors_def)

lemma debtors_creditors_bounds: "\<forall>k \<in> set (debtors bal) \<union> set (creditors bal). k < length bal"
  by (auto simp: debtors_set creditors_set)

lemma debtors_creditors_disjoint: "set (debtors bal) \<inter> set (creditors bal) = {}"
  by (auto simp: debtors_set creditors_set)

lemma length_filter_positions:
  "length (filter (\<lambda>k. P (xs ! k)) [0..<length xs]) = length (filter P xs)"
proof -
  have "filter P xs = filter P (map (nth xs) [0..<length xs])" by (simp add: map_nth)
  also have "\<dots> = map (nth xs) (filter (\<lambda>k. P (xs ! k)) [0..<length xs])"
    by (simp add: filter_map comp_def)
  finally show ?thesis by simp
qed

lemma length_debtors: "length (debtors bal) = length (filter (\<lambda>p. balance p < 0) bal)"
  using length_filter_positions [of "\<lambda>p. balance p < 0" bal] by (simp add: debtors_def)

lemma length_creditors: "length (creditors bal) = length (filter (\<lambda>p. balance p > 0) bal)"
  using length_filter_positions [of "\<lambda>p. balance p > 0" bal] by (simp add: creditors_def)

subsection \<open>The number of settlements\<close>

lemma settle_step64_count:
  assumes bounds: "\<forall>k \<in> set ds \<union> set cs. k < n" and disj: "set ds \<inter> set cs = {}"
    and len: "length (st_balances st) = n"
    and i: "st_i st < length ds" and j: "st_j st < length cs"
    and cnt: "length (st_settlements st) \<le> st_i st + st_j st"
  shows "length (st_settlements (settle_step64 ds cs st))
           \<le> st_i (settle_step64 ds cs st) + st_j (settle_step64 ds cs st)
         \<and> length (st_settlements (settle_step64 ds cs st)) + 1 \<le> length ds + length cs"
proof -
  from current_rows [OF bounds disj i j] len
  have d: "ds ! st_i st < length (st_balances st)"
    and c: "cs ! st_j st < length (st_balances st)"
    and ne: "ds ! st_i st \<noteq> cs ! st_j st"
    by simp_all
  show ?thesis
  proof (cases "amount64 ds cs st > double (1 / 100)")
    case True
    then have "length (st_settlements (settle_step64 ds cs st)) = length (st_settlements st) + 1"
      by (simp add: settle_step64_settlements)
    with settle_step64_advances [OF d c ne True] cnt i j show ?thesis by linarith
  next
    case False
    then have "length (st_settlements (settle_step64 ds cs st)) = length (st_settlements st)"
      by (simp add: settle_step64_settlements)
    with settle_step64_i_bounds [of st ds cs] settle_step64_j_bounds [of st ds cs] cnt i j
    show ?thesis by linarith
  qed
qed

lemma settle_run64_count:
  assumes bounds: "\<forall>k \<in> set ds \<union> set cs. k < length bal" and disj: "set ds \<inter> set cs = {}"
  shows "st_settlements (settle_run64 n ds cs (start bal)) = []
         \<or> length (st_settlements (settle_run64 n ds cs (start bal))) + 1 \<le> length ds + length cs"
proof -
  let ?I = "\<lambda>s :: settle_state. length (st_balances s) = length bal
               \<and> length (st_settlements s) \<le> st_i s + st_j s
               \<and> (st_settlements s = [] \<or> length (st_settlements s) + 1 \<le> length ds + length cs)"
  have "?I (settle_run64 n ds cs (start bal))"
  proof (rule settle_run64_invariant [where I = ?I])
    show "?I (start bal)" by (simp add: start_def)
  next
    fix s :: settle_state
    assume I: "?I s" and i: "st_i s < length ds" and j: "st_j s < length cs"
    from I have len: "length (st_balances s) = length bal"
      and cnt: "length (st_settlements s) \<le> st_i s + st_j s" by simp_all
    from settle_step64_count [OF bounds disj len i j cnt] len
    show "?I (settle_step64 ds cs s)" by simp
  qed
  then show ?thesis by blast
qed

text \<open>
  Claim C5. With C creditors (balance above zero) and D debtors (balance below zero), the
  loop has recorded at most C + D - 1 settlements after any number of passes, and so has
  the planner when it returns; without creditors and debtors there are none.
\<close>

theorem settlements_bound64:
  "length (st_settlements
      (settle_run64 n (debtors balances) (creditors balances) (start balances)))
     \<le> length (filter (\<lambda>p. balance p > 0) balances)
       + length (filter (\<lambda>p. balance p < 0) balances) - 1
   \<and> (plan64 balances = Some (balances', settlements) \<longrightarrow>
        length settlements
          \<le> length (filter (\<lambda>p. balance p > 0) balances)
            + length (filter (\<lambda>p. balance p < 0) balances) - 1
        \<and> (settlements = []
            \<or> length settlements
                < length (filter (\<lambda>p. balance p > 0) balances)
                  + length (filter (\<lambda>p. balance p < 0) balances)))"
proof -
  let ?ds = "debtors balances" and ?cs = "creditors balances"
  have run: "st_settlements (settle_run64 n ?ds ?cs (start balances)) = []
       \<or> length (st_settlements (settle_run64 n ?ds ?cs (start balances))) + 1
          \<le> length ?ds + length ?cs" for n
    by (rule settle_run64_count [OF debtors_creditors_bounds debtors_creditors_disjoint])
  have a: "length (st_settlements (settle_run64 n ?ds ?cs (start balances)))
             \<le> length (filter (\<lambda>p. balance p > 0) balances)
               + length (filter (\<lambda>p. balance p < 0) balances) - 1"
    using run [of n] by (auto simp: length_debtors length_creditors)
  have b: "length settlements
          \<le> length (filter (\<lambda>p. balance p > 0) balances)
            + length (filter (\<lambda>p. balance p < 0) balances) - 1
        \<and> (settlements = []
            \<or> length settlements
                < length (filter (\<lambda>p. balance p > 0) balances)
                  + length (filter (\<lambda>p. balance p < 0) balances))"
    if "plan64 balances = Some (balances', settlements)"
  proof -
    from that obtain st' where loop: "settle_loop64 ?ds ?cs (start balances) = Some st'"
      and ts: "settlements = st_settlements st'"
      by (auto simp: plan64_def)
    from settle_loop64_run [OF loop] obtain m where "st' = settle_run64 m ?ds ?cs (start balances)"
      by blast
    with run [of m] ts show ?thesis
      by (auto simp: length_debtors length_creditors)
  qed
  from a b show ?thesis by blast
qed

subsection \<open>The settlements account for the balances\<close>

lemma residual_Nil [simp]: "residual n b [] [] = b"
  by (simp add: residual_def)

lemma residual_snoc:
  "length as = length ts \<Longrightarrow>
     residual n b (ts @ [t]) (as @ [a]) = apply_raw n (residual n b ts as) (t, a)"
  by (simp add: residual_def)

lemma settle_step64_accounted:
  assumes bounds: "\<forall>k \<in> set ds \<union> set cs. k < length bal0" and disj: "set ds \<inter> set cs = {}"
    and names: "distinct (map name bal0)"
    and i: "st_i st < length ds" and j: "st_j st < length cs"
    and inv: "accounted64 bal0 st"
  shows "accounted64 bal0 (settle_step64 ds cs st)"
proof -
  let ?ts = "st_settlements st" and ?s' = "settle_step64 ds cs st"
  let ?d = "ds ! st_i st" and ?c = "cs ! st_j st" and ?a = "amount64 ds cs st"
  from inv have len: "length (st_balances st) = length bal0"
    and row: "\<forall>k<length bal0.
          name (st_balances st ! k) = name (bal0 ! k)
          \<and> paid (st_balances st ! k) = paid (bal0 ! k)
          \<and> owes (st_balances st ! k) = owes (bal0 ! k)"
    unfolding accounted64_def by blast+
  from inv obtain as where las: "length as = length ?ts"
    and am: "\<forall>i<length as. t_amount (?ts ! i) = toFixed2 (as ! i) \<and> double (1 / 100) < as ! i"
    and acc: "\<forall>k<length bal0.
                balance (st_balances st ! k) = residual (name (bal0 ! k)) (balance (bal0 ! k)) ?ts as"
    unfolding accounted64_def by blast
  note cur = current_rows [OF bounds disj i j]
  have row': "\<forall>k<length bal0.
          name (st_balances ?s' ! k) = name (bal0 ! k)
          \<and> paid (st_balances ?s' ! k) = paid (bal0 ! k)
          \<and> owes (st_balances ?s' ! k) = owes (bal0 ! k)"
    using row len settle_step64_row [of _ st ds cs] by simp
  have eq: "name (bal0 ! m) = name (bal0 ! k) \<longleftrightarrow> m = k"
    if "m < length bal0" "k < length bal0" for m k
    using names that nth_eq_iff_index_eq [of "map name bal0" m k] by simp
  have nd: "name (st_balances st ! ?d) = name (bal0 ! ?d)"
    and nc: "name (st_balances st ! ?c) = name (bal0 ! ?c)"
    using row cur by simp_all
  have "\<exists>as'. length as' = length (st_settlements ?s')
          \<and> (\<forall>i<length as'. t_amount (st_settlements ?s' ! i) = toFixed2 (as' ! i)
                \<and> double (1 / 100) < as' ! i)
          \<and> (\<forall>k<length bal0.
                balance (st_balances ?s' ! k)
                  = residual (name (bal0 ! k)) (balance (bal0 ! k)) (st_settlements ?s') as')"
  proof (cases "?a > double (1 / 100)")
    case False
    then have "st_settlements ?s' = ?ts" by (simp add: settle_step64_settlements)
    moreover have "balance (st_balances ?s' ! k) = balance (st_balances st ! k)"
      if "k < length bal0" for k
      using settle_step64_balance [of k st ds cs, OF _ cur(3)] that len False by simp
    ultimately show ?thesis using las am acc by auto
  next
    case True
    let ?t = "\<lparr> t_from = name (bal0 ! ?d), t_to = name (bal0 ! ?c), t_amount = toFixed2 ?a \<rparr>"
    have ts': "st_settlements ?s' = ?ts @ [?t]"
      using True nd nc by (simp add: settle_step64_settlements)
    have l: "length (as @ [?a]) = length (st_settlements ?s')"
      using las ts' by simp
    have m: "\<forall>i<length (as @ [?a]). t_amount (st_settlements ?s' ! i) = toFixed2 ((as @ [?a]) ! i)
                \<and> double (1 / 100) < (as @ [?a]) ! i"
      using am las True by (simp add: ts' nth_append)
    have b: "balance (st_balances ?s' ! k)
               = residual (name (bal0 ! k)) (balance (bal0 ! k)) (st_settlements ?s') (as @ [?a])"
      if k: "k < length bal0" for k
    proof -
      have prev: "balance (st_balances st ! k)
                    = residual (name (bal0 ! k)) (balance (bal0 ! k)) ?ts as"
        using acc k by simp
      have kk: "k < length (st_balances st)" using k len by simp
      show ?thesis
        unfolding ts' residual_snoc [OF las] prev [symmetric]
        using settle_step64_balance [OF kk cur(3)] True eq [OF cur(1) k] eq [OF cur(2) k] cur(3)
        by auto
    qed
    from l m b show ?thesis by blast
  qed
  with row' len show ?thesis unfolding accounted64_def settle_step64_length by blast
qed

lemma plan64_accounted:
  assumes ret: "plan64 bal = Some (bal', ts)"
    and names: "distinct (map name bal)"
  shows "accounted64 bal \<lparr> st_i = 0, st_j = 0, st_balances = bal', st_settlements = ts \<rparr>"
proof -
  let ?ds = "debtors bal" and ?cs = "creditors bal"
  from ret obtain st' where loop: "settle_loop64 ?ds ?cs (start bal) = Some st'"
    and res: "bal' = st_balances st'" "ts = st_settlements st'"
    by (auto simp: plan64_def)
  from settle_loop64_run [OF loop] obtain n where n: "st' = settle_run64 n ?ds ?cs (start bal)"
    by blast
  have "accounted64 bal (settle_run64 n ?ds ?cs (start bal))"
  proof (rule settle_run64_invariant [where I = "accounted64 bal"])
    have "\<exists>as. length as = length ([] :: transfer list)
          \<and> (\<forall>i<length as. t_amount ([] ! i) = toFixed2 (as ! i) \<and> double (1 / 100) < as ! i)
          \<and> (\<forall>k<length bal. balance (bal ! k) = residual (name (bal ! k)) (balance (bal ! k)) [] as)"
      by (intro exI [of _ "[]"]) simp
    then show "accounted64 bal (start bal)"
      by (simp add: accounted64_def start_def)
  next
    fix s :: settle_state
    assume "accounted64 bal s" "st_i s < length ?ds" "st_j s < length ?cs"
    then show "accounted64 bal (settle_step64 ?ds ?cs s)"
      using settle_step64_accounted [OF debtors_creditors_bounds debtors_creditors_disjoint names]
      by blast
  qed
  then have "accounted64 bal st'" using n by simp
  then show ?thesis
    unfolding accounted64_def res settle_state.select_convs by blast
qed

subsection \<open>The rows behind the cursors\<close>

lemma settle_step64_passed:
  assumes bounds: "\<forall>k \<in> set ds \<union> set cs. k < length bal0" and disj: "set ds \<inter> set cs = {}"
    and dist: "distinct ds" "distinct cs"
    and i: "st_i st < length ds" and j: "st_j st < length cs"
    and inv: "passed64 ds cs bal0 st"
  shows "passed64 ds cs bal0 (settle_step64 ds cs st)"
proof -
  let ?s' = "settle_step64 ds cs st"
  let ?b = "\<lambda>k. balance (st_balances st ! k)"
  let ?b' = "\<lambda>k. balance (st_balances ?s' ! k)"
  let ?d = "ds ! st_i st" and ?c = "cs ! st_j st"
  from inv have len: "length (st_balances st) = length bal0"
    and pd: "\<forall>m<st_i st. m < length ds \<longrightarrow> \<bar>?b (ds ! m)\<bar> < double (1 / 100)"
    and pc: "\<forall>m<st_j st. m < length cs \<longrightarrow> \<bar>?b (cs ! m)\<bar> < double (1 / 100)"
    and out: "\<forall>k<length bal0. k \<notin> set ds \<and> k \<notin> set cs \<longrightarrow> ?b k = balance (bal0 ! k)"
    unfolding passed64_def by blast+
  note cur = current_rows [OF bounds disj i j]
  have dm: "?d \<in> set ds" and cm: "?c \<in> set cs" using i j by simp_all
  have other: "?b' k = ?b k" if "k < length bal0" "k \<noteq> ?d" "k \<noteq> ?c" for k
    using settle_step64_balance [of k st ds cs, OF _ cur(3)] that len by simp
  have pd': "\<forall>m<st_i ?s'. m < length ds \<longrightarrow> \<bar>?b' (ds ! m)\<bar> < double (1 / 100)"
  proof (intro allI impI)
    fix m assume m: "m < st_i ?s'" and ml: "m < length ds"
    show "\<bar>?b' (ds ! m)\<bar> < double (1 / 100)"
    proof (cases "m < st_i st")
      case True
      then have "ds ! m \<in> set ds" and "ds ! m \<noteq> ?d"
        using i ml dist(1) nth_eq_iff_index_eq [of ds m "st_i st"] by simp_all
      moreover from this have "ds ! m \<noteq> ?c" "ds ! m < length bal0"
        using cm disj bounds by auto
      ultimately show ?thesis using other pd True ml by simp
    next
      case False
      with m have "m = st_i st" and "\<bar>?b' ?d\<bar> < double (1 / 100)"
        by (auto simp: settle_step64_i split: if_splits)
      then show ?thesis by simp
    qed
  qed
  have pc': "\<forall>m<st_j ?s'. m < length cs \<longrightarrow> \<bar>?b' (cs ! m)\<bar> < double (1 / 100)"
  proof (intro allI impI)
    fix m assume m: "m < st_j ?s'" and ml: "m < length cs"
    show "\<bar>?b' (cs ! m)\<bar> < double (1 / 100)"
    proof (cases "m < st_j st")
      case True
      then have "cs ! m \<in> set cs" and "cs ! m \<noteq> ?c"
        using j ml dist(2) nth_eq_iff_index_eq [of cs m "st_j st"] by simp_all
      moreover from this have "cs ! m \<noteq> ?d" "cs ! m < length bal0"
        using dm disj bounds by auto
      ultimately show ?thesis using other pc True ml by simp
    next
      case False
      with m have "m = st_j st" and "\<bar>?b' ?c\<bar> < double (1 / 100)"
        by (auto simp: settle_step64_j split: if_splits)
      then show ?thesis by simp
    qed
  qed
  have out': "\<forall>k<length bal0. k \<notin> set ds \<and> k \<notin> set cs \<longrightarrow> ?b' k = balance (bal0 ! k)"
  proof (intro allI impI)
    fix k assume k: "k < length bal0" "k \<notin> set ds \<and> k \<notin> set cs"
    then have "k \<noteq> ?d" "k \<noteq> ?c" using dm cm by auto
    then show "?b' k = balance (bal0 ! k)" using other k out by simp
  qed
  show ?thesis
    unfolding passed64_def settle_step64_length using len pd' pc' out' by blast
qed

lemma plan64_one_side:
  assumes ret: "plan64 bal = Some (bal', ts)"
  shows "((\<forall>k<length bal. balance (bal ! k) < 0 \<longrightarrow> \<bar>balance (bal' ! k)\<bar> < double (1 / 100))
          \<or> (\<forall>k<length bal. 0 < balance (bal ! k) \<longrightarrow> \<bar>balance (bal' ! k)\<bar> < double (1 / 100)))
         \<and> (\<forall>k<length bal. balance (bal ! k) = 0 \<longrightarrow> balance (bal' ! k) = 0)"
proof -
  let ?ds = "debtors bal" and ?cs = "creditors bal"
  from ret obtain st' where loop: "settle_loop64 ?ds ?cs (start bal) = Some st'"
    and res: "bal' = st_balances st'"
    by (auto simp: plan64_def)
  from settle_loop64_run [OF loop] obtain n where n: "st' = settle_run64 n ?ds ?cs (start bal)"
    and exit: "\<not> (st_i st' < length ?ds \<and> st_j st' < length ?cs)"
    by blast
  have "passed64 ?ds ?cs bal (settle_run64 n ?ds ?cs (start bal))"
  proof (rule settle_run64_invariant [where I = "passed64 ?ds ?cs bal"])
    show "passed64 ?ds ?cs bal (start bal)"
      by (simp add: passed64_def start_def)
  next
    fix s :: settle_state
    assume "passed64 ?ds ?cs bal s" "st_i s < length ?ds" "st_j s < length ?cs"
    then show "passed64 ?ds ?cs bal (settle_step64 ?ds ?cs s)"
      using settle_step64_passed [OF debtors_creditors_bounds debtors_creditors_disjoint
          debtors_distinct creditors_distinct]
      by blast
  qed
  with n res have pd: "\<forall>m<st_i st'. m < length ?ds \<longrightarrow> \<bar>balance (bal' ! (?ds ! m))\<bar> < double (1 / 100)"
    and pc: "\<forall>m<st_j st'. m < length ?cs \<longrightarrow> \<bar>balance (bal' ! (?cs ! m))\<bar> < double (1 / 100)"
    and out: "\<forall>k<length bal. k \<notin> set ?ds \<and> k \<notin> set ?cs \<longrightarrow> balance (bal' ! k) = balance (bal ! k)"
    unfolding passed64_def by blast+
  have zero: "\<forall>k<length bal. balance (bal ! k) = 0 \<longrightarrow> balance (bal' ! k) = 0"
    using out by (auto simp: debtors_set creditors_set)
  from exit consider "length ?ds \<le> st_i st'" | "length ?cs \<le> st_j st'" by linarith
  then have "(\<forall>k<length bal. balance (bal ! k) < 0 \<longrightarrow> \<bar>balance (bal' ! k)\<bar> < double (1 / 100))
          \<or> (\<forall>k<length bal. 0 < balance (bal ! k) \<longrightarrow> \<bar>balance (bal' ! k)\<bar> < double (1 / 100))"
  proof cases
    case 1
    have "\<bar>balance (bal' ! k)\<bar> < double (1 / 100)" if "k < length bal" "balance (bal ! k) < 0" for k
    proof -
      from that have "k \<in> set ?ds" by (simp add: debtors_set)
      then obtain m where "m < length ?ds" "?ds ! m = k" by (auto simp: in_set_conv_nth)
      with pd 1 show ?thesis by auto
    qed
    then show ?thesis by blast
  next
    case 2
    have "\<bar>balance (bal' ! k)\<bar> < double (1 / 100)" if "k < length bal" "0 < balance (bal ! k)" for k
    proof -
      from that have "k \<in> set ?cs" by (simp add: creditors_set)
      then obtain m where "m < length ?cs" "?cs ! m = k" by (auto simp: in_set_conv_nth)
      with pc 2 show ?thesis by auto
    qed
    then show ?thesis by blast
  qed
  with zero show ?thesis by blast
qed

subsection \<open>When the planner returns\<close>

lemma plan64_returns_iff:
  "plan64 bal = None \<longleftrightarrow>
     (\<exists>n. stuck64 (debtors bal) (creditors bal)
             (settle_run64 n (debtors bal) (creditors bal) (start bal)))"
proof
  assume "plan64 bal = None"
  then have none: "settle_loop64 (debtors bal) (creditors bal) (start bal) = None"
    by (simp add: plan64_def)
  show "\<exists>n. stuck64 (debtors bal) (creditors bal)
               (settle_run64 n (debtors bal) (creditors bal) (start bal))"
  proof (rule ccontr)
    assume "\<not> ?thesis"
    then have "\<forall>n. \<not> stuck64 (debtors bal) (creditors bal)
               (settle_run64 n (debtors bal) (creditors bal) (start bal))" by blast
    moreover have "\<forall>k \<in> set (debtors bal) \<union> set (creditors bal).
                     k < length (st_balances (start bal))"
      using debtors_creditors_bounds [of bal] by (simp add: start_def)
    ultimately have "\<exists>st'. settle_loop64 (debtors bal) (creditors bal) (start bal) = Some st'"
      using settle_loop64_returns [OF _ debtors_creditors_disjoint] by blast
    with none show False by simp
  qed
next
  assume "\<exists>n. stuck64 (debtors bal) (creditors bal)
               (settle_run64 n (debtors bal) (creditors bal) (start bal))"
  then obtain n where "stuck64 (debtors bal) (creditors bal)
               (settle_run64 n (debtors bal) (creditors bal) (start bal))" ..
  then have "settle_loop64 (debtors bal) (creditors bal) (start bal) = None"
    by (rule settle_loop64_stuck)
  then show "plan64 bal = None" by (simp add: plan64_def)
qed

subsection \<open>Runs of the planner in binary64\<close>

lemmas plan_eval64 =
  plan64_def start_def debtors_def creditors_def upt_rec settle_loop64.simps settle_step64_def
  amount64_def Let_def add_balance64_def sub_balance64_def fadd_def fsub_def toFixed2_def
  round2_def

lemma rent_validate64: "validate64 rent_people = None"
  by (simp add: rent_people_def check_split64_def)

lemma rent_balances64: "computeBalances64 rent_people = rent_balances"
  by (simp add: rent_people_def rent_expense_def rent_balances_def eval64)

lemma rent_plan64: "plan64 rent_balances = Some (rent_summary, rent_settlements)"
  by (simp add: rent_balances_def rent_summary_def rent_settlements_def plan_eval64)

lemma rent_settlements_route64:
  "settlements_route64 rent_people = Some (Status200 (rent_summary, rent_settlements))"
  by (simp add: settlements_route64_def rent_validate64 rent_balances64 rent_plan64)

lemma three_validate64: "validate64 three_people = None"
  by (simp add: three_people_def three_expense_def eval64)

lemma three_balances64: "computeBalances64 three_people = three_balances"
  by (simp add: three_people_def three_expense_def three_balances_def eval64)

lemma three_plan64:
  "plan64 three_balances =
     Some ([\<lparr> name = ''A'', paid = double (3 / 100), owes = 0,
              balance = 2882303761517117 / 288230376151711744 \<rparr>,
            \<lparr> name = ''B'', paid = 0, owes = double (2 / 100), balance = 0 \<rparr>,
            \<lparr> name = ''C'', paid = 0, owes = double (1 / 100), balance = - double (1 / 100) \<rparr>],
           [\<lparr> t_from = ''B'', t_to = ''A'', t_amount = double (2 / 100) \<rparr>])"
  by (simp add: three_balances_def plan_eval64)

lemma four_validate64: "validate64 four_people = None"
  by (simp add: four_people_def four_expense1_def four_expense2_def eval64)

lemma four_balances64: "computeBalances64 four_people = four_balances"
  by (simp add: four_people_def four_expense1_def four_expense2_def four_balances_def eval64)

lemma four_plan64: "plan64 four_balances = Some (four_summary, four_settlements)"
  by (simp add: four_balances_def four_summary_def four_settlements_def plan_eval64)

lemma four_settlements_route64:
  "settlements_route64 four_people = Some (Status200 (four_summary, four_settlements))"
  by (simp add: settlements_route64_def four_validate64 four_balances64 four_plan64)

text \<open>
  The debt of one cent of claim C4 in binary64: the balances are the numbers 0.01 and
  -0.01, the first pass is stuck, and the settlements route never answers.
\<close>

lemma stuck_balances64:
  "computeBalances64 stuck_people =
     [\<lparr> name = ''A'', paid = double (2 / 100), owes = double (1 / 100),
        balance = double (1 / 100) \<rparr>,
      \<lparr> name = ''B'', paid = 0, owes = double (1 / 100), balance = - double (1 / 100) \<rparr>]"
  by (simp add: stuck_people_def stuck_expense_def eval64)

lemma stuck_validate64: "validate64 stuck_people = None"
  by (simp add: stuck_people_def check_split64_def)

lemma one_cent_debt_stuck64:
  "stuck64 (debtors (computeBalances64 stuck_people)) (creditors (computeBalances64 stuck_people))
     (start (computeBalances64 stuck_people))"
  unfolding stuck_balances64
  by (simp add: stuck64_def start_def debtors_def creditors_def upt_rec amount64_def)

lemma one_cent_debt_never_settles64: "settlements_route64 stuck_people = None"
proof -
  let ?bal = "computeBalances64 stuck_people"
  have "\<exists>n. stuck64 (debtors ?bal) (creditors ?bal)
               (settle_run64 n (debtors ?bal) (creditors ?bal) (start ?bal))"
    using one_cent_debt_stuck64 by (intro exI [of _ 0]) simp
  then have "plan64 ?bal = None" by (simp only: plan64_returns_iff)
  then show ?thesis by (simp add: settlements_route64_def stuck_validate64)
qed

subsection \<open>The summary of the settlements route\<close>

lemma computeBalances64_names: "map name (computeBalances64 people) = map p_name people"
  by (simp add: computeBalances64_def balance_of64_def)

text \<open>
  Claim C2, as the code has it. When the settlements route answers with status 200, the
  summary has one row per person, with the name, paid and owes figures of the aggregated
  row. Its balance is the aggregated balance to which the amount of every returned
  settlement, in their order, has been added in binary64 where the person is the sender and
  subtracted where the person is the receiver: the amount as the loop computed it, which
  is above 0.01 and of which the response shows the rounding to two decimals. (People have
  different names: the store keeps the name unique.)
\<close>

theorem summary_is_raw_residual64:
  assumes names: "distinct (map p_name people)"
    and ret: "settlements_route64 people = Some (Status200 (summary, settlements))"
  shows "length summary = length people
       \<and> (\<forall>k<length people.
             name (summary ! k) = p_name (people ! k)
             \<and> paid (summary ! k) = paid (computeBalances64 people ! k)
             \<and> owes (summary ! k) = owes (computeBalances64 people ! k))
       \<and> (\<exists>as. length as = length settlements
             \<and> (\<forall>i<length as. t_amount (settlements ! i) = toFixed2 (as ! i)
                   \<and> double (1 / 100) < as ! i)
             \<and> (\<forall>k<length people.
                   balance (summary ! k) =
                     residual (p_name (people ! k)) (balance (computeBalances64 people ! k))
                       settlements as))"
proof -
  let ?bal = "computeBalances64 people"
  from ret have p: "plan64 ?bal = Some (summary, settlements)"
    by (auto simp: settlements_route64_def split: option.splits)
  have len: "length ?bal = length people" by (simp add: computeBalances64_def)
  have nk: "name (?bal ! k) = p_name (people ! k)" if "k < length people" for k
    using that by (simp add: computeBalances64_def balance_of64_def)
  have d: "distinct (map name ?bal)" using names by (simp add: computeBalances64_names)
  from plan64_accounted [OF p d] show ?thesis
    unfolding accounted64_def settle_state.select_convs len using nk by auto
qed

text \<open>
  Claim C2 as stated fails on the returned amounts. A paid 0.05 of which B owes 0.04 and C
  owes 0.01, and D paid 0.01 which C owes: the balances are 0.05, -0.04, -0.02 and 0.01.
  After B's 0.04 the balance of A is 0.05 - 0.04, in binary64 \<open>0.010000000000000002\<close>;
  this is the amount C sends, returned as 0.01, and the balance of C in the summary is
  \<open>-0.009999999999999998\<close>, while -0.02 + 0.01 is the number -0.01.
\<close>

theorem summary_not_from_returned_amounts:
  "settlements_route64 four_people = Some (Status200 (four_summary, four_settlements))
   \<and> balance (four_summary ! 2) = - (2882303761517117 / 288230376151711744)
   \<and> balance (computeBalances64 four_people ! 2)
       + outgoing ''C'' four_settlements - incoming ''C'' four_settlements
       = - (5764607523034235 / 576460752303423488)
   \<and> fsub (fadd (balance (computeBalances64 four_people ! 2)) (outgoing ''C'' four_settlements))
          (incoming ''C'' four_settlements)
       = - (5764607523034235 / 576460752303423488)
   \<and> - (5764607523034235 / 576460752303423488)
       < - (2882303761517117 / 288230376151711744 :: rat)"
  by (simp add: four_settlements_route64 four_balances64)
     (simp add: four_balances_def four_summary_def four_settlements_def outgoing_def incoming_def
        fadd_def fsub_def)

text \<open>
  In the scenario of an expense of 300 paid by A and split equally among A, B and C, the
  summary has the balances 0, 0 and 0, and B and C each send 100.
\<close>

theorem summary_is_raw_residual64_witness:
  "distinct (map p_name rent_people)
   \<and> settlements_route64 rent_people = Some (Status200 (rent_summary, rent_settlements))
   \<and> length rent_summary = length rent_people
   \<and> (\<exists>as. length as = length rent_settlements
         \<and> balance (rent_summary ! 0) =
             residual (p_name (rent_people ! 0)) (balance (computeBalances64 rent_people ! 0))
               rent_settlements as)"
proof -
  have d: "distinct (map p_name rent_people)" by (simp add: rent_people_def)
  have k: "0 < length rent_people" by (simp add: rent_people_def)
  from summary_is_raw_residual64 [OF d rent_settlements_route64] d rent_settlements_route64 k
  show ?thesis by blast
qed

subsection \<open>What the planner settles\<close>

text \<open>
  Claim C3, as the code has it. The planner returns unless some pass is stuck: the amount
  is not above 0.01 and neither balance is below 0.01 in magnitude (claim C4). When it
  returns, on rows with different names, the residual balances (the initial balance with
  the amounts of the person's settlements applied as in claim C2) are below 0.01 in
  magnitude for every debtor or for every creditor, and rows with balance zero stay at
  zero; rows of the other side can keep more.
\<close>

theorem one_side_settled64:
  assumes names: "distinct (map name balances)"
  shows "(plan64 balances = None \<longleftrightarrow>
            (\<exists>n. stuck64 (debtors balances) (creditors balances)
                    (settle_run64 n (debtors balances) (creditors balances) (start balances))))
       \<and> (plan64 balances = Some (balances', settlements) \<longrightarrow>
            (\<exists>as. length as = length settlements
               \<and> (\<forall>i<length as. t_amount (settlements ! i) = toFixed2 (as ! i))
               \<and> (\<forall>k<length balances.
                     balance (balances' ! k) =
                       residual (name (balances ! k)) (balance (balances ! k)) settlements as)
               \<and> ((\<forall>k<length balances. balance (balances ! k) < 0 \<longrightarrow>
                       \<bar>residual (name (balances ! k)) (balance (balances ! k)) settlements as\<bar>
                         < double (1 / 100))
                   \<or> (\<forall>k<length balances. 0 < balance (balances ! k) \<longrightarrow>
                       \<bar>residual (name (balances ! k)) (balance (balances ! k)) settlements as\<bar>
                         < double (1 / 100)))
               \<and> (\<forall>k<length balances. balance (balances ! k) = 0 \<longrightarrow>
                     residual (name (balances ! k)) (balance (balances ! k)) settlements as = 0)))"
proof (intro conjI impI)
  show "plan64 balances = None \<longleftrightarrow>
            (\<exists>n. stuck64 (debtors balances) (creditors balances)
                    (settle_run64 n (debtors balances) (creditors balances) (start balances)))"
    by (rule plan64_returns_iff)
next
  assume ret: "plan64 balances = Some (balances', settlements)"
  from plan64_accounted [OF ret names] obtain as where
    l: "length as = length settlements"
    and m: "\<forall>i<length as. t_amount (settlements ! i) = toFixed2 (as ! i)"
    and r: "\<forall>k<length balances.
              balance (balances' ! k) =
                residual (name (balances ! k)) (balance (balances ! k)) settlements as"
    unfolding accounted64_def settle_state.select_convs by blast
  from plan64_one_side [OF ret] r have
    "(\<forall>k<length balances. balance (balances ! k) < 0 \<longrightarrow>
        \<bar>residual (name (balances ! k)) (balance (balances ! k)) settlements as\<bar> < double (1 / 100))
     \<or> (\<forall>k<length balances. 0 < balance (balances ! k) \<longrightarrow>
        \<bar>residual (name (balances ! k)) (balance (balances ! k)) settlements as\<bar> < double (1 / 100))"
    and "\<forall>k<length balances. balance (balances ! k) = 0 \<longrightarrow>
           residual (name (balances ! k)) (balance (balances ! k)) settlements as = 0"
    by simp_all
  with l m r show "\<exists>as. length as = length settlements
               \<and> (\<forall>i<length as. t_amount (settlements ! i) = toFixed2 (as ! i))
               \<and> (\<forall>k<length balances.
                     balance (balances' ! k) =
                       residual (name (balances ! k)) (balance (balances ! k)) settlements as)
               \<and> ((\<forall>k<length balances. balance (balances ! k) < 0 \<longrightarrow>
                       \<bar>residual (name (balances ! k)) (balance (balances ! k)) settlements as\<bar>
                         < double (1 / 100))
                   \<or> (\<forall>k<length balances. 0 < balance (balances ! k) \<longrightarrow>
                       \<bar>residual (name (balances ! k)) (balance (balances ! k)) settlements as\<bar>
                         < double (1 / 100)))
               \<and> (\<forall>k<length balances. balance (balances ! k) = 0 \<longrightarrow>
                     residual (name (balances ! k)) (balance (balances ! k)) settlements as = 0)"
    by blast
qed

text \<open>
  Claim C3 as stated fails, also on balances with two decimals that add up to zero: A paid
  0.03 of which B owes 0.02 and C owes 0.01. B sends 0.02; then the balance of A is
  0.03 - 0.02, in binary64 \<open>0.009999999999999998\<close>, below 0.01, so the creditors are
  exhausted and the planner returns with this one settlement. C has neither sent nor
  received, and its balance stays at -0.01, whose magnitude is not below 0.01.
\<close>

theorem one_cent_left_unsettled:
  "computeBalances64 three_people = three_balances
   \<and> plan64 three_balances =
     Some ([\<lparr> name = ''A'', paid = double (3 / 100), owes = 0,
              balance = 2882303761517117 / 288230376151711744 \<rparr>,
            \<lparr> name = ''B'', paid = 0, owes = double (2 / 100), balance = 0 \<rparr>,
            \<lparr> name = ''C'', paid = 0, owes = double (1 / 100), balance = - double (1 / 100) \<rparr>],
           [\<lparr> t_from = ''B'', t_to = ''A'', t_amount = double (2 / 100) \<rparr>])
   \<and> \<not> \<bar>balance (three_balances ! 2)
          - outgoing ''C'' [\<lparr> t_from = ''B'', t_to = ''A'', t_amount = double (2 / 100) \<rparr>]
          + incoming ''C'' [\<lparr> t_from = ''B'', t_to = ''A'', t_amount = double (2 / 100) \<rparr>]\<bar>
        < 1 / 100
   \<and> \<not> \<bar>balance (three_balances ! 2)
          - outgoing ''C'' [\<lparr> t_from = ''B'', t_to = ''A'', t_amount = double (2 / 100) \<rparr>]
          + incoming ''C'' [\<lparr> t_from = ''B'', t_to = ''A'', t_amount = double (2 / 100) \<rparr>]\<bar>
        < double (1 / 100)
   \<and> sum_list [3 / 100, - (2 / 100), - (1 / 100 :: rat)] = 0"
  by (simp add: three_balances64 three_plan64)
     (simp add: three_balances_def outgoing_def incoming_def)

text \<open>
  In the scenario of the expense of 300 the planner returns and every residual balance is
  zero.
\<close>

theorem one_side_settled64_witness:
  "distinct (map name rent_balances)
   \<and> plan64 rent_balances = Some (rent_summary, rent_settlements)
   \<and> (\<exists>as. length as = length rent_settlements
         \<and> balance (rent_summary ! 1) =
             residual (name (rent_balances ! 1)) (balance (rent_balances ! 1)) rent_settlements as
         \<and> \<bar>residual (name (rent_balances ! 1)) (balance (rent_balances ! 1))
              rent_settlements as\<bar> < double (1 / 100))"
proof -
  have d: "distinct (map name rent_balances)" by (simp add: rent_balances_def)
  have k: "1 < length rent_balances" by (simp add: rent_balances_def)
  have b: "\<bar>balance (rent_summary ! 1)\<bar> < double (1 / 100)" by (simp add: rent_summary_def)
  from one_side_settled64 [OF d, of rent_summary rent_settlements] rent_plan64
  obtain as where "length as = length rent_settlements"
    and "\<forall>k<length rent_balances.
           balance (rent_summary ! k) =
             residual (name (rent_balances ! k)) (balance (rent_balances ! k)) rent_settlements as"
    by blast
  with k b d rent_plan64 show ?thesis by (intro conjI exI [of _ as]) auto
qed

text \<open>
  In the scenario of the expense of 300 there are one creditor and two debtors, and the
  planner returns two settlements.
\<close>

theorem settlements_bound64_witness:
  "plan64 rent_balances = Some (rent_summary, rent_settlements)
   \<and> length (filter (\<lambda>p. balance p > 0) rent_balances) = 1
   \<and> length (filter (\<lambda>p. balance p < 0) rent_balances) = 2
   \<and> length rent_settlements = 2
   \<and> length rent_settlements \<le> 1 + 2 - (1 :: nat)"
proof -
  have c: "length (filter (\<lambda>p. balance p > 0) rent_balances) = 1"
    and d: "length (filter (\<lambda>p. balance p < 0) rent_balances) = 2"
    and l: "length rent_settlements = 2"
    by (simp_all add: rent_balances_def rent_settlements_def)
  from settlements_bound64 [of 0 rent_balances rent_summary rent_settlements] rent_plan64 c d l
  show ?thesis by simp
qed

end
